theory Spec2Isabelle
  imports Complex_Main "HOL-Library.FSet" "HOL-Library.AList" "HOL-Library.Char_ord"
    "HOL-Library.List_Lexorder"
begin

section \<open>DraftState (DraftState.h, DraftState.cpp)\<close>

text \<open>
  A \<^verbatim>\<open>QSet<QString>\<close> is a finite set of strings, a \<^verbatim>\<open>QVector<QString>\<close> a list.
  The pick number is a C++ \<^verbatim>\<open>int\<close>; the only arithmetic on it is \<^verbatim>\<open>m_pickNumber + 1\<close>
  in \<^verbatim>\<open>applyMove\<close>, executed only when \<^verbatim>\<open>m_pickNumber <= 6\<close>, so it cannot overflow and
  the unbounded \<^typ>\<open>int\<close> agrees with the machine integer.
\<close>

record DraftState =
  m_map :: string
  m_mode :: string
  m_masterBrawlerList :: "string fset"
  m_bans :: "string fset"
  m_team1Picks :: "string list"
  m_team2Picks :: "string list"
  m_turn :: string
  m_pickNumber :: int
  m_available :: "string fset"

text \<open>The exceptions thrown by \<^verbatim>\<open>applyMove\<close> and \<^verbatim>\<open>applyBan\<close>, one constructor per
  \<^verbatim>\<open>throw\<close> statement, in source order.\<close>

datatype draft_error =
    DraftAlreadyComplete
  | BrawlerNotAvailable
  | Team1AlreadyFull
  | Team2AlreadyFull
  | InvalidTurn
  | MaxBansReached
  | BrawlerNotAvailableForBan

text \<open>\<^verbatim>\<open>updateAvailable\<close>: start from the master list, subtract the bans, then remove every
  pick of team 1 and of team 2 one by one.\<close>

definition removeAll_fset :: "string list \<Rightarrow> string fset \<Rightarrow> string fset" where
  "removeAll_fset ps a = fold (\<lambda>p acc. acc |-| {|p|}) ps a"

definition updateAvailable :: "DraftState \<Rightarrow> DraftState" where
  "updateAvailable s =
     s\<lparr>m_available :=
         removeAll_fset (m_team2Picks s)
           (removeAll_fset (m_team1Picks s) (m_masterBrawlerList s |-| m_bans s))\<rparr>"

text \<open>The constructor stores its arguments and calls \<^verbatim>\<open>updateAvailable\<close>; the \<^verbatim>\<open>isValid\<close>
  check that follows only logs a warning.\<close>

definition newDraftState ::
  "string \<Rightarrow> string \<Rightarrow> string fset \<Rightarrow> string fset \<Rightarrow> string list \<Rightarrow> string list
     \<Rightarrow> string \<Rightarrow> int \<Rightarrow> DraftState" where
  "newDraftState mp md allBrawlers bans team1Picks team2Picks turn pickNumber =
     updateAvailable
       \<lparr>m_map = mp, m_mode = md, m_masterBrawlerList = allBrawlers, m_bans = bans,
        m_team1Picks = team1Picks, m_team2Picks = team2Picks, m_turn = turn,
        m_pickNumber = pickNumber, m_available = {||}\<rparr>"

text \<open>A fresh draft: the constructor with its default arguments
  (no bans, no picks, turn \<^verbatim>\<open>"team1"\<close>, pick number 1).\<close>

definition freshDraft :: "string \<Rightarrow> string \<Rightarrow> string fset \<Rightarrow> DraftState" where
  "freshDraft mp md allBrawlers = newDraftState mp md allBrawlers {||} [] [] ''team1'' 1"

definition isComplete :: "DraftState \<Rightarrow> bool" where
  "isComplete s = (m_pickNumber s > 6)"

definition isValid :: "DraftState \<Rightarrow> bool" where
  "isValid s =
     (if length (m_team1Picks s) > 3 \<or> length (m_team2Picks s) > 3 \<or> fcard (m_bans s) > 6
      then False
      else let pickedOrBanned =
                 fold finsert (m_team2Picks s) (fold finsert (m_team1Picks s) (m_bans s))
           in if fcard pickedOrBanned
                 \<noteq> fcard (m_bans s) + length (m_team1Picks s) + length (m_team2Picks s)
              then False
              else if \<not> pickedOrBanned |\<subseteq>| m_masterBrawlerList s then False
              else True)"

text \<open>The \<^verbatim>\<open>switch (m_pickNumber)\<close> of \<^verbatim>\<open>applyMove\<close>.\<close>

definition nextTurnAfter :: "int \<Rightarrow> string" where
  "nextTurnAfter pickNumber =
     (if pickNumber = 1 then ''team2''
      else if pickNumber = 2 then ''team2''
      else if pickNumber = 3 then ''team1''
      else if pickNumber = 4 then ''team1''
      else if pickNumber = 5 then ''team2''
      else if pickNumber = 6 then ''''
      else '''')"

definition applyMove :: "DraftState \<Rightarrow> string \<Rightarrow> draft_error + DraftState" where
  "applyMove s brawler =
     (if isComplete s then Inl DraftAlreadyComplete
      else if brawler |\<notin>| m_available s then Inl BrawlerNotAvailable
      else if m_turn s = ''team1'' then
        (if length (m_team1Picks s) \<ge> 3 then Inl Team1AlreadyFull
         else Inr (newDraftState (m_map s) (m_mode s) (m_masterBrawlerList s) (m_bans s)
                     (m_team1Picks s @ [brawler]) (m_team2Picks s)
                     (nextTurnAfter (m_pickNumber s)) (m_pickNumber s + 1)))
      else if m_turn s = ''team2'' then
        (if length (m_team2Picks s) \<ge> 3 then Inl Team2AlreadyFull
         else Inr (newDraftState (m_map s) (m_mode s) (m_masterBrawlerList s) (m_bans s)
                     (m_team1Picks s) (m_team2Picks s @ [brawler])
                     (nextTurnAfter (m_pickNumber s)) (m_pickNumber s + 1)))
      else Inl InvalidTurn)"

definition applyBan :: "DraftState \<Rightarrow> string \<Rightarrow> draft_error + DraftState" where
  "applyBan s brawler =
     (if fcard (m_bans s) \<ge> 6 then Inl MaxBansReached
      else if brawler |\<notin>| m_available s then Inl BrawlerNotAvailableForBan
      else Inr (newDraftState (m_map s) (m_mode s) (m_masterBrawlerList s)
                  (finsert brawler (m_bans s)) (m_team1Picks s) (m_team2Picks s)
                  (m_turn s) (m_pickNumber s)))"

text \<open>A caller's sequence of transitions: each call is made on the state the previous one
  returned, and the first exception ends the sequence.\<close>

datatype draft_op = Pick string | Ban string

fun applyOp :: "DraftState \<Rightarrow> draft_op \<Rightarrow> draft_error + DraftState" where
  "applyOp s (Pick b) = applyMove s b"
| "applyOp s (Ban b) = applyBan s b"

fun applyOps :: "DraftState \<Rightarrow> draft_op list \<Rightarrow> draft_error + DraftState" where
  "applyOps s [] = Inr s"
| "applyOps s (x # xs) = (case applyOp s x of Inl e \<Rightarrow> Inl e | Inr s' \<Rightarrow> applyOps s' xs)"

subsection \<open>Specification-side notions for the draft\<close>

text \<open>The draft order seen from the pick number: whose turn it is at pick \<open>n\<close>, and how many
  picks each team holds by then.\<close>

definition turnAtPick :: "int \<Rightarrow> string" where
  "turnAtPick n =
     (if n = 1 then ''team1'' else if n = 2 then ''team2'' else if n = 3 then ''team2''
      else if n = 4 then ''team1'' else if n = 5 then ''team1'' else if n = 6 then ''team2''
      else '''')"

definition team1SizeAt :: "int \<Rightarrow> nat" where
  "team1SizeAt n = (if n \<le> 1 then 0 else if n \<le> 4 then 1 else if n = 5 then 2 else 3)"

definition team2SizeAt :: "int \<Rightarrow> nat" where
  "team2SizeAt n = (if n \<le> 2 then 0 else if n = 3 then 1 else if n \<le> 6 then 2 else 3)"

text \<open>The invariant carried along every sequence of successful transitions.\<close>

definition draft_inv :: "DraftState \<Rightarrow> bool" where
  "draft_inv s \<longleftrightarrow>
     fcard (m_bans s) \<le> 6 \<and>
     1 \<le> m_pickNumber s \<and> m_pickNumber s \<le> 7 \<and>
     m_turn s = turnAtPick (m_pickNumber s) \<and>
     length (m_team1Picks s) = team1SizeAt (m_pickNumber s) \<and>
     length (m_team2Picks s) = team2SizeAt (m_pickNumber s) \<and>
     distinct (m_team1Picks s @ m_team2Picks s) \<and>
     m_bans s |\<inter>| fset_of_list (m_team1Picks s) = {||} \<and>
     m_bans s |\<inter>| fset_of_list (m_team2Picks s) = {||} \<and>
     m_bans s |\<subseteq>| m_masterBrawlerList s \<and>
     fset_of_list (m_team1Picks s) |\<subseteq>| m_masterBrawlerList s \<and>
     fset_of_list (m_team2Picks s) |\<subseteq>| m_masterBrawlerList s \<and>
     m_available s =
       m_masterBrawlerList s |-| m_bans s |-| fset_of_list (m_team1Picks s)
         |-| fset_of_list (m_team2Picks s)"

section \<open>AppConfig (AppConfig.h, AppConfig.cpp)\<close>

text \<open>
  Every getter reads one setting, falling back to the built-in default when the key is
  absent. The record holds the value each \<^verbatim>\<open>m_settings.value(key, default)\<close> call yields, so
  a configuration is any assignment of values to the settings. A C++ \<^verbatim>\<open>double\<close> is modelled
  as a \<^typ>\<open>real\<close>: rounding, infinities and NaN are outside the model. A C++ \<^verbatim>\<open>int\<close> is an
  \<^typ>\<open>int\<close>, with the 32-bit wrap-around written out where a result can leave the range.
\<close>

record AppConfig =
  cfg_SmoothingK :: real
  cfg_MinRank :: int
  cfg_MaxRankConsidered :: int
  cfg_RankWeightDivisor :: real
  cfg_LowPickRateThreshold :: real
  cfg_LowConfidenceWinRateTarget :: real
  cfg_MctsTimeLimit :: real
  cfg_MctsResultCount :: int
  cfg_MctsUpdateIntervalIters :: int

text \<open>The built-in defaults of \<^verbatim>\<open>AppConfig.h\<close>.\<close>

definition defaultConfig :: AppConfig where
  "defaultConfig =
     \<lparr>cfg_SmoothingK = 2, cfg_MinRank = 10, cfg_MaxRankConsidered = 22,
      cfg_RankWeightDivisor = 3, cfg_LowPickRateThreshold = 3 / 100,
      cfg_LowConfidenceWinRateTarget = 0, cfg_MctsTimeLimit = 7,
      cfg_MctsResultCount = 10, cfg_MctsUpdateIntervalIters = 250\<rparr>"

definition smoothingK :: "AppConfig \<Rightarrow> real" where
  "smoothingK cfg = cfg_SmoothingK cfg"

definition minRank :: "AppConfig \<Rightarrow> int" where
  "minRank cfg = cfg_MinRank cfg"

definition maxRankConsidered :: "AppConfig \<Rightarrow> int" where
  "maxRankConsidered cfg = cfg_MaxRankConsidered cfg"

definition rankWeightScaleDivisor :: "AppConfig \<Rightarrow> real" where
  "rankWeightScaleDivisor cfg =
     (let divisor = cfg_RankWeightDivisor cfg in if divisor \<le> 0 then 1 else divisor)"

definition lowPickRateThreshold :: "AppConfig \<Rightarrow> real" where
  "lowPickRateThreshold cfg = cfg_LowPickRateThreshold cfg"

definition lowConfidenceWinRateTarget :: "AppConfig \<Rightarrow> real" where
  "lowConfidenceWinRateTarget cfg = cfg_LowConfidenceWinRateTarget cfg"

definition mctsResultCount :: "AppConfig \<Rightarrow> int" where
  "mctsResultCount cfg = cfg_MctsResultCount cfg"

definition mctsTimeLimit :: "AppConfig \<Rightarrow> real" where
  "mctsTimeLimit cfg = cfg_MctsTimeLimit cfg"

definition mctsUpdateIntervalIters :: "AppConfig \<Rightarrow> int" where
  "mctsUpdateIntervalIters cfg = cfg_MctsUpdateIntervalIters cfg"

text \<open>The value of a 32-bit signed subtraction or addition whose mathematical result is \<open>x\<close>,
  on a machine that wraps (signed overflow is undefined behaviour in C++).\<close>

definition wrap_int32 :: "int \<Rightarrow> int" where
  "wrap_int32 x = (x + 2147483648) mod 4294967296 - 2147483648"

text \<open>\<^verbatim>\<open>getRankWeight\<close>: the rank is clamped into \<^verbatim>\<open>[minRank, maxRankConsidered]\<close> with
  \<^verbatim>\<open>std::max(minRank(), std::min(rank, maxRankConsidered()))\<close>; the difference
  \<^verbatim>\<open>clampedRank - minRank()\<close> is an \<^verbatim>\<open>int\<close> subtraction, converted to \<^verbatim>\<open>double\<close> afterwards.\<close>

definition getRankWeight :: "AppConfig \<Rightarrow> int \<Rightarrow> real" where
  "getRankWeight cfg rank =
     (let clampedRank = max (minRank cfg) (min rank (maxRankConsidered cfg));
          divisor = rankWeightScaleDivisor cfg;
          weight = (real_of_int (wrap_int32 (clampedRank - minRank cfg)) + divisor) / divisor
      in max (1 / 10) weight)"

section \<open>Statistics tables (DataStructures.h, StatsCalculator.cpp)\<close>

text \<open>
  A \<^verbatim>\<open>QHash<QString, V>\<close> is modelled as an association list with one entry per key, in the
  order in which the hash iterates. \<^verbatim>\<open>constFind\<close> is \<^const>\<open>map_of\<close>; \<^verbatim>\<open>h[k]\<close> yields the
  stored value or a default-constructed one, and writing through \<^verbatim>\<open>h[k]\<close> replaces the entry
  or adds one (\<^const>\<open>AList.update\<close>).
\<close>

type_synonym 'v qhash = "(string \<times> 'v) list"

definition qhash_value :: "'v \<Rightarrow> 'v qhash \<Rightarrow> string \<Rightarrow> 'v" where
  "qhash_value dflt h k = (case map_of h k of None \<Rightarrow> dflt | Some v \<Rightarrow> v)"

record BrawlerStats =
  wins :: real
  plays :: real

record BrawlerStatsData =
  data_wins :: real
  data_plays :: real

record MapModeStats =
  brawlerStats :: "BrawlerStats qhash"
  synergyStats :: "BrawlerStats qhash"
  counterStats :: "BrawlerStats qhash"
  totalWeightedPlays :: real

record MapModeStatsData =
  data_brawlerStats :: "BrawlerStatsData qhash"
  data_synergyStats :: "BrawlerStatsData qhash"
  data_counterStats :: "BrawlerStatsData qhash"
  data_totalWeightedPlays :: real

text \<open>Default-constructed values.\<close>

definition newBrawlerStats :: BrawlerStats where
  "newBrawlerStats = \<lparr>wins = 0, plays = 0\<rparr>"

definition newBrawlerStatsData :: BrawlerStatsData where
  "newBrawlerStatsData = \<lparr>data_wins = 0, data_plays = 0\<rparr>"

definition newMapModeStats :: MapModeStats where
  "newMapModeStats =
     \<lparr>brawlerStats = [], synergyStats = [], counterStats = [], totalWeightedPlays = 0\<rparr>"

definition newMapModeStatsData :: MapModeStatsData where
  "newMapModeStatsData =
     \<lparr>data_brawlerStats = [], data_synergyStats = [], data_counterStats = [],
      data_totalWeightedPlays = 0\<rparr>"

record PlayerData =
  brawlerName :: string
  rank :: int

record ProcessedGame =
  game_mode :: string
  game_map :: string
  winningTeamData :: "PlayerData list"
  losingTeamData :: "PlayerData list"

record CacheData =
  cache_stats :: "MapModeStatsData qhash qhash"
  cache_allBrawlers :: "string fset"
  cache_discoveredMapModes :: "string fset qhash"
  cache_metadata_cacheCreationTime :: int

definition newCacheData :: CacheData where
  "newCacheData =
     \<lparr>cache_stats = [], cache_allBrawlers = {||}, cache_discoveredMapModes = [],
      cache_metadata_cacheCreationTime = 0\<rparr>"

definition sortedPairKey :: "string \<Rightarrow> string \<Rightarrow> string" where
  "sortedPairKey b1 b2 = (if b1 < b2 then b1 @ ''|'' @ b2 else b2 @ ''|'' @ b1)"

definition counterPairKey :: "string \<Rightarrow> string \<Rightarrow> string" where
  "counterPairKey bUs bThem = bUs @ ''|'' @ bThem"

record StatsCalculator =
  m_config :: AppConfig
  m_stats :: "MapModeStats qhash qhash"

definition getMapModeStats :: "StatsCalculator \<Rightarrow> string \<Rightarrow> string \<Rightarrow> MapModeStats option" where
  "getMapModeStats sc mapName mode =
     (case map_of (m_stats sc) mapName of
        None \<Rightarrow> None
      | Some modes \<Rightarrow> map_of modes mode)"

text \<open>Writing \<^verbatim>\<open>m[mapName][modeName]\<close> in a two-level hash: the inner hash is the stored
  one or a new empty one, and the bucket found or created there is replaced by \<open>v\<close>.\<close>

definition qhash_value2 :: "'v \<Rightarrow> 'v qhash qhash \<Rightarrow> string \<Rightarrow> string \<Rightarrow> 'v" where
  "qhash_value2 dflt h mapName modeName = qhash_value dflt (qhash_value [] h mapName) modeName"

definition qhash_store2 :: "string \<Rightarrow> string \<Rightarrow> 'v \<Rightarrow> 'v qhash qhash \<Rightarrow> 'v qhash qhash" where
  "qhash_store2 mapName modeName v h =
     AList.update mapName (AList.update modeName v (qhash_value [] h mapName)) h"

subsection \<open>Building the statistics (\<^verbatim>\<open>calculateStats\<close>)\<close>

text \<open>\<^verbatim>\<open>atomic_add_double\<close> adds \<open>value\<close> to the variable; the build phase has a single writer, so
  the compare-and-swap loop succeeds with the sum.\<close>

definition atomic_add_double :: "real \<Rightarrow> real \<Rightarrow> real" where
  "atomic_add_double atomic_var v = atomic_var + v"

text \<open>\<^verbatim>\<open>BrawlerStats& s = h[key]\<close> followed by updates through the reference: the entry is
  created if new, then replaced by the updated value.\<close>

definition qhash_modify :: "string \<Rightarrow> (BrawlerStats \<Rightarrow> BrawlerStats) \<Rightarrow> BrawlerStats qhash \<Rightarrow> BrawlerStats qhash" where
  "qhash_modify key f h = AList.update key (f (qhash_value newBrawlerStats h key)) h"

text \<open>C's \<^verbatim>\<open>round\<close>: to the nearest integer, halves away from zero.\<close>

definition c_round :: "real \<Rightarrow> int" where
  "c_round x = (if 0 \<le> x then \<lfloor>x + 1 / 2\<rfloor> else \<lceil>x - 1 / 2\<rceil>)"

definition updateTeamSynergy :: "AppConfig \<Rightarrow> MapModeStats \<Rightarrow> PlayerData list \<Rightarrow> bool \<Rightarrow> MapModeStats" where
  "updateTeamSynergy cfg mapModeStats teamData win =
     fold (\<lambda>i st.
             fold (\<lambda>j st'.
                     let p1 = teamData ! i;
                         p2 = teamData ! j;
                         pairKey = sortedPairKey (brawlerName p1) (brawlerName p2);
                         avgRank = (real_of_int (rank p1) + real_of_int (rank p2)) / 2;
                         weight = getRankWeight cfg (c_round avgRank)
                     in st'\<lparr>synergyStats :=
                            qhash_modify pairKey
                              (\<lambda>pairStats.
                                 let s1 = (if win
                                           then pairStats\<lparr>wins := atomic_add_double (wins pairStats) weight\<rparr>
                                           else pairStats)
                                 in s1\<lparr>plays := atomic_add_double (plays s1) weight\<rparr>)
                              (synergyStats st')\<rparr>)
                  [i + 1 ..< length teamData] st)
          [0 ..< length teamData] mapModeStats"

text \<open>The loop over the winners and the loop over the losers; the second component is
  \<^verbatim>\<open>gameTotalWeightContribution\<close>.\<close>

definition addWinners :: "AppConfig \<Rightarrow> PlayerData list \<Rightarrow> MapModeStats \<times> real \<Rightarrow> MapModeStats \<times> real" where
  "addWinners cfg team acc =
     fold (\<lambda>playerData (st, gameTotal).
             let weight = getRankWeight cfg (rank playerData)
             in (st\<lparr>brawlerStats :=
                      qhash_modify (brawlerName playerData)
                        (\<lambda>bStats. bStats\<lparr>wins := atomic_add_double (wins bStats) weight,
                                          plays := atomic_add_double (plays bStats) weight\<rparr>)
                        (brawlerStats st)\<rparr>,
                 gameTotal + weight))
          team acc"

definition addLosers :: "AppConfig \<Rightarrow> PlayerData list \<Rightarrow> MapModeStats \<times> real \<Rightarrow> MapModeStats \<times> real" where
  "addLosers cfg team acc =
     fold (\<lambda>playerData (st, gameTotal).
             let weight = getRankWeight cfg (rank playerData)
             in (st\<lparr>brawlerStats :=
                      qhash_modify (brawlerName playerData)
                        (\<lambda>bStats. bStats\<lparr>plays := atomic_add_double (plays bStats) weight\<rparr>)
                        (brawlerStats st)\<rparr>,
                 gameTotal + weight))
          team acc"

definition addCounters :: "AppConfig \<Rightarrow> PlayerData list \<Rightarrow> PlayerData list \<Rightarrow> MapModeStats \<Rightarrow> MapModeStats" where
  "addCounters cfg winners losers mapModeStats =
     fold (\<lambda>winnerData st.
             let weightWin = getRankWeight cfg (rank winnerData)
             in fold (\<lambda>loserData st'.
                        let weightLose = getRankWeight cfg (rank loserData);
                            winLoseKey = counterPairKey (brawlerName winnerData) (brawlerName loserData);
                            c1 = qhash_modify winLoseKey
                                   (\<lambda>cStatsWin.
                                      cStatsWin\<lparr>wins := atomic_add_double (wins cStatsWin) weightWin,
                                                plays := atomic_add_double (plays cStatsWin) weightWin\<rparr>)
                                   (counterStats st');
                            loseWinKey = counterPairKey (brawlerName loserData) (brawlerName winnerData);
                            c2 = qhash_modify loseWinKey
                                   (\<lambda>cStatsLose.
                                      cStatsLose\<lparr>plays := atomic_add_double (plays cStatsLose) weightLose\<rparr>)
                                   c1
                        in st'\<lparr>counterStats := c2\<rparr>)
                     losers st)
          winners mapModeStats"

text \<open>One pass of the game loop: the bucket \<^verbatim>\<open>m_stats[game.map][game.mode]\<close> is fetched (or
  created), updated in place, and so stored back.\<close>

definition processGame :: "AppConfig \<Rightarrow> ProcessedGame \<Rightarrow> MapModeStats qhash qhash \<Rightarrow> MapModeStats qhash qhash" where
  "processGame cfg game stats =
     (let currentMapModeStats = qhash_value2 newMapModeStats stats (game_map game) (game_mode game);
          (st1, total1) = addWinners cfg (winningTeamData game) (currentMapModeStats, 0);
          (st2, gameTotalWeightContribution) = addLosers cfg (losingTeamData game) (st1, total1);
          st3 = st2\<lparr>totalWeightedPlays :=
                      atomic_add_double (totalWeightedPlays st2) gameTotalWeightContribution\<rparr>;
          st4 = updateTeamSynergy cfg st3 (winningTeamData game) True;
          st5 = updateTeamSynergy cfg st4 (losingTeamData game) False;
          st6 = addCounters cfg (winningTeamData game) (losingTeamData game) st5
      in qhash_store2 (game_map game) (game_mode game) st6 stats)"

definition calculateStats :: "StatsCalculator \<Rightarrow> ProcessedGame list \<Rightarrow> StatsCalculator" where
  "calculateStats sc processedGames =
     sc\<lparr>m_stats := fold (processGame (m_config sc)) processedGames []\<rparr>"

text \<open>The constructor that takes the games: it computes the statistics unless the list is
  empty.\<close>

definition newStatsCalculator :: "ProcessedGame list \<Rightarrow> AppConfig \<Rightarrow> StatsCalculator" where
  "newStatsCalculator processedGames cfg =
     (if processedGames \<noteq> [] then calculateStats \<lparr>m_config = cfg, m_stats = []\<rparr> processedGames
      else \<lparr>m_config = cfg, m_stats = []\<rparr>)"

text \<open>The constructor that takes the configuration only, used before loading from the
  cache: the table starts empty.\<close>

definition newEmptyStatsCalculator :: "AppConfig \<Rightarrow> StatsCalculator" where
  "newEmptyStatsCalculator cfg = \<lparr>m_config = cfg, m_stats = []\<rparr>"

subsection \<open>Export to and import from the cache structure\<close>

text \<open>One pass of a \<^verbatim>\<open>for (bsIt ...)\<close> loop of \<^verbatim>\<open>getStatsForCache\<close>: two writes through
  \<^verbatim>\<open>target[key]\<close>, first \<^verbatim>\<open>wins\<close>, then \<^verbatim>\<open>plays\<close>.\<close>

definition exportEntries :: "BrawlerStats qhash \<Rightarrow> BrawlerStatsData qhash \<Rightarrow> BrawlerStatsData qhash" where
  "exportEntries source target =
     fold (\<lambda>(key, v) t.
        let t1 = AList.update key ((qhash_value newBrawlerStatsData t key)\<lparr>data_wins := wins v\<rparr>) t
        in AList.update key ((qhash_value newBrawlerStatsData t1 key)\<lparr>data_plays := plays v\<rparr>) t1)
       source target"

definition exportBucket :: "MapModeStats \<Rightarrow> MapModeStatsData \<Rightarrow> MapModeStatsData" where
  "exportBucket sourceStats targetData =
     targetData
       \<lparr>data_totalWeightedPlays := totalWeightedPlays sourceStats,
        data_brawlerStats := exportEntries (brawlerStats sourceStats) (data_brawlerStats targetData),
        data_synergyStats := exportEntries (synergyStats sourceStats) (data_synergyStats targetData),
        data_counterStats := exportEntries (counterStats sourceStats) (data_counterStats targetData)\<rparr>"

definition getStatsForCache :: "StatsCalculator \<Rightarrow> CacheData" where
  "getStatsForCache sc =
     newCacheData
       \<lparr>cache_stats :=
          fold (\<lambda>(mapName, modes) acc.
                  fold (\<lambda>(modeName, sourceStats) acc'.
                          qhash_store2 mapName modeName
                            (exportBucket sourceStats
                               (qhash_value2 newMapModeStatsData acc' mapName modeName))
                            acc')
                       modes acc)
               (m_stats sc) []\<rparr>"

definition importEntries :: "BrawlerStatsData qhash \<Rightarrow> BrawlerStats qhash \<Rightarrow> BrawlerStats qhash" where
  "importEntries source target =
     fold (\<lambda>(key, v) t.
        let t1 = AList.update key ((qhash_value newBrawlerStats t key)\<lparr>wins := data_wins v\<rparr>) t
        in AList.update key ((qhash_value newBrawlerStats t1 key)\<lparr>plays := data_plays v\<rparr>) t1)
       source target"

definition importBucket :: "MapModeStatsData \<Rightarrow> MapModeStats \<Rightarrow> MapModeStats" where
  "importBucket sourceData targetStats =
     targetStats
       \<lparr>totalWeightedPlays := data_totalWeightedPlays sourceData,
        brawlerStats := importEntries (data_brawlerStats sourceData) (brawlerStats targetStats),
        synergyStats := importEntries (data_synergyStats sourceData) (synergyStats targetStats),
        counterStats := importEntries (data_counterStats sourceData) (counterStats targetStats)\<rparr>"

definition setStatsFromCacheData :: "StatsCalculator \<Rightarrow> CacheData \<Rightarrow> StatsCalculator" where
  "setStatsFromCacheData sc cacheData =
     sc\<lparr>m_stats :=
          fold (\<lambda>(mapName, modes) acc.
                  fold (\<lambda>(modeName, sourceData) acc'.
                          qhash_store2 mapName modeName
                            (importBucket sourceData
                               (qhash_value2 newMapModeStats acc' mapName modeName))
                            acc')
                       modes acc)
               (cache_stats cacheData) []\<rparr>"

subsection \<open>Stat accessors\<close>

definition getPickRate :: "StatsCalculator \<Rightarrow> string \<Rightarrow> string \<Rightarrow> string \<Rightarrow> real option" where
  "getPickRate sc brawler mapName mode =
     (case getMapModeStats sc mapName mode of
        None \<Rightarrow> None
      | Some stats \<Rightarrow>
          if totalWeightedPlays stats \<le> 0 then None
          else let brawlerPlays =
                     (case map_of (brawlerStats stats) brawler of
                        None \<Rightarrow> 0
                      | Some b \<Rightarrow> plays b);
                   totalPlays = totalWeightedPlays stats
               in if totalPlays \<le> 0 then Some 0 else Some (brawlerPlays / totalPlays))"

definition getWinRate :: "StatsCalculator \<Rightarrow> string \<Rightarrow> string \<Rightarrow> string \<Rightarrow> real option" where
  "getWinRate sc brawler mapName mode =
     (case getMapModeStats sc mapName mode of
        None \<Rightarrow> None
      | Some stats \<Rightarrow>
          (case map_of (brawlerStats stats) brawler of
             None \<Rightarrow> Some (lowConfidenceWinRateTarget (m_config sc))
           | Some bStats \<Rightarrow>
               let bPlays = plays bStats;
                   bWins = wins bStats;
                   k = smoothingK (m_config sc)
               in if bPlays + k \<le> 0 then Some (lowConfidenceWinRateTarget (m_config sc))
                  else
                    let smoothedWinRate = (bWins + k * (1 / 2)) / (bPlays + k);
                        pickRate = (case getPickRate sc brawler mapName mode of
                                      None \<Rightarrow> 0 | Some pr \<Rightarrow> pr);
                        prThreshold = lowPickRateThreshold (m_config sc);
                        confidenceFactor =
                          (if prThreshold > 0 then max 0 (min 1 (pickRate / prThreshold)) else 1);
                        adjustedWinRate =
                          smoothedWinRate * confidenceFactor
                            + lowConfidenceWinRateTarget (m_config sc) * (1 - confidenceFactor)
                    in Some (max 0 (min 1 adjustedWinRate))))"

definition getSynergyScore :: "StatsCalculator \<Rightarrow> string \<Rightarrow> string \<Rightarrow> string \<Rightarrow> string \<Rightarrow> real" where
  "getSynergyScore sc brawler1 brawler2 mapName mode =
     (case getMapModeStats sc mapName mode of
        None \<Rightarrow> 1 / 2
      | Some stats \<Rightarrow>
          (case map_of (synergyStats stats) (sortedPairKey brawler1 brawler2) of
             None \<Rightarrow> 1 / 2
           | Some pairStats \<Rightarrow>
               let pPlays = plays pairStats;
                   pWins = wins pairStats;
                   k = smoothingK (m_config sc)
               in if pPlays + k \<le> 0 then 1 / 2
                  else max 0 (min 1 ((pWins + k * (1 / 2)) / (pPlays + k)))))"

definition getCounterScore :: "StatsCalculator \<Rightarrow> string \<Rightarrow> string \<Rightarrow> string \<Rightarrow> string \<Rightarrow> real" where
  "getCounterScore sc brawlerUs brawlerThem mapName mode =
     (case getMapModeStats sc mapName mode of
        None \<Rightarrow> 1 / 2
      | Some stats \<Rightarrow>
          (case map_of (counterStats stats) (counterPairKey brawlerUs brawlerThem) of
             None \<Rightarrow> 1 / 2
           | Some matchupStats \<Rightarrow>
               let pPlays = plays matchupStats;
                   pWins = wins matchupStats;
                   k = smoothingK (m_config sc)
               in if pPlays + k \<le> 0 then 1 / 2
                  else max 0 (min 1 ((pWins + k * (1 / 2)) / (pPlays + k)))))"

subsection \<open>Specification-side notions for the statistics tables\<close>

text \<open>Lookup in a two-level hash, and the representation invariant of the model: every hash
  has one entry per key, as a \<^verbatim>\<open>QHash\<close> does by construction.\<close>

definition qhash_lookup2 :: "'v qhash qhash \<Rightarrow> string \<Rightarrow> string \<Rightarrow> 'v option" where
  "qhash_lookup2 h mapName modeName =
     (case map_of h mapName of None \<Rightarrow> None | Some modes \<Rightarrow> map_of modes modeName)"

definition qhash2_wf :: "('v \<Rightarrow> bool) \<Rightarrow> 'v qhash qhash \<Rightarrow> bool" where
  "qhash2_wf P h \<longleftrightarrow>
     distinct (map fst h) \<and>
     (\<forall>m modes. map_of h m = Some modes \<longrightarrow>
        distinct (map fst modes) \<and> (\<forall>d v. map_of modes d = Some v \<longrightarrow> P v))"

definition bucket_wf :: "MapModeStats \<Rightarrow> bool" where
  "bucket_wf st \<longleftrightarrow>
     distinct (map fst (brawlerStats st)) \<and> distinct (map fst (synergyStats st)) \<and>
     distinct (map fst (counterStats st))"

definition bucket_data_wf :: "MapModeStatsData \<Rightarrow> bool" where
  "bucket_data_wf st \<longleftrightarrow>
     distinct (map fst (data_brawlerStats st)) \<and> distinct (map fst (data_synergyStats st)) \<and>
     distinct (map fst (data_counterStats st))"

subsection \<open>Specification-side notions for the win rate\<close>

text \<open>The quantities the specification names for \<^verbatim>\<open>getWinRate\<close>: the Laplace-smoothed rate,
  the pick rate with "no data" read as 0, and the confidence factor.\<close>

definition laplaceRate :: "real \<Rightarrow> real \<Rightarrow> real \<Rightarrow> real" where
  "laplaceRate k w p = (w + k / 2) / (p + k)"

definition pickRateOrZero :: "StatsCalculator \<Rightarrow> string \<Rightarrow> string \<Rightarrow> string \<Rightarrow> real" where
  "pickRateOrZero sc brawler mapName mode =
     (case getPickRate sc brawler mapName mode of None \<Rightarrow> 0 | Some pr \<Rightarrow> pr)"

definition confidenceFactorOf :: "StatsCalculator \<Rightarrow> string \<Rightarrow> string \<Rightarrow> string \<Rightarrow> real" where
  "confidenceFactorOf sc brawler mapName mode =
     (if lowPickRateThreshold (m_config sc) > 0
      then max 0 (min 1 (pickRateOrZero sc brawler mapName mode
                           / lowPickRateThreshold (m_config sc)))
      else 1)"

section \<open>Win-probability model (Heuristics.cpp)\<close>










subsection \<open>A sample match and the table built from it\<close>

text \<open>One match on one map and mode: the winners play at rank 10 (rank weight 1 under the
  default configuration), the losers at rank 13 (rank weight 2).\<close>

definition sampleGame :: ProcessedGame where
  "sampleGame =
     \<lparr>game_mode = ''mode'', game_map = ''map'',
      winningTeamData =
        [\<lparr>brawlerName = ''a'', rank = 10\<rparr>, \<lparr>brawlerName = ''b'', rank = 10\<rparr>,
         \<lparr>brawlerName = ''c'', rank = 10\<rparr>],
      losingTeamData =
        [\<lparr>brawlerName = ''x'', rank = 13\<rparr>, \<lparr>brawlerName = ''y'', rank = 13\<rparr>,
         \<lparr>brawlerName = ''z'', rank = 13\<rparr>]\<rparr>"

definition sampleStats :: StatsCalculator where
  "sampleStats = newStatsCalculator [sampleGame] defaultConfig"


section \<open>Search results (MCTS.h, MCTS.cpp)\<close>

text \<open>
  A node of the search tree as \<^verbatim>\<open>getMctsResults\<close> reads it: its state, the move that led to
  it, its children, and the values of the atomic counters at the time of the read. The
  non-owning parent pointer and the mutex play no part in the ranking and are left out.
\<close>

datatype MCTSNode =
  MCTSNode (node_state: DraftState) (node_move: string) (node_children: "MCTSNode list")
    (node_wins: real) (node_visits: int) (node_untriedMoves: "string list")
    (node_isTerminal: bool)

record MCTSResult =
  move :: string
  visits :: int
  winRate :: real

text \<open>\<^verbatim>\<open>QList::resize\<close> requires a non-negative size; a negative one violates its
  precondition (an assertion failure in a debug build).\<close>

datatype mcts_error = ResizeToNegativeSize

text \<open>The comparator handed to \<^verbatim>\<open>std::sort\<close>.\<close>

definition resultLess :: "MCTSResult \<Rightarrow> MCTSResult \<Rightarrow> bool" where
  "resultLess a b = (if visits a \<noteq> visits b then visits a > visits b else winRate a > winRate b)"

text \<open>\<^verbatim>\<open>std::sort\<close> is modelled by insertion sort with the comparator, each element going
  in front of the first later one that does not come before it, so that entries the
  comparator does not separate keep the order of the input (what the library's insertion
  sort does on short ranges). \<^verbatim>\<open>std::sort\<close> is not stable in general: on long ranges such
  entries may come out in any order.\<close>

fun insert_by :: "('a \<Rightarrow> 'a \<Rightarrow> bool) \<Rightarrow> 'a \<Rightarrow> 'a list \<Rightarrow> 'a list" where
  "insert_by lt x [] = [x]"
| "insert_by lt x (y # ys) = (if lt y x then y # insert_by lt x ys else x # y # ys)"

definition std_sort :: "('a \<Rightarrow> 'a \<Rightarrow> bool) \<Rightarrow> 'a list \<Rightarrow> 'a list" where
  "std_sort lt xs = foldr (insert_by lt) xs []"

text \<open>The loop over the children: a child with a positive visit count contributes its move,
  its visit count and its mean score.\<close>

definition collectResults :: "MCTSNode list \<Rightarrow> MCTSResult list" where
  "collectResults children =
     fold (\<lambda>child results.
             let childVisits = node_visits child
             in if childVisits > 0
                then let childWins = node_wins child;
                         winRate = (if childVisits > 0 then childWins / real_of_int childVisits
                                    else 0)
                     in results @ [\<lparr>move = node_move child, visits = childVisits,
                                     winRate = winRate\<rparr>]
                else results)
          children []"

definition getMctsResults :: "AppConfig \<Rightarrow> MCTSNode option \<Rightarrow> mcts_error + MCTSResult list" where
  "getMctsResults cfg rootNode =
     (case rootNode of
        None \<Rightarrow> Inr []
      | Some rootPtr \<Rightarrow>
          if node_children rootPtr = [] then Inr []
          else let results = std_sort resultLess (collectResults (node_children rootPtr));
                   limit = mctsResultCount cfg
               in if int (length results) > limit
                  then (if limit < 0 then Inl ResizeToNegativeSize
                        else Inr (take (nat limit) results))
                  else Inr results)"

subsection \<open>The controller task\<close>

text \<open>
  \<^verbatim>\<open>runMctsControllerTask\<close> runs beside the workers. What it reads from its environment is
  modelled as a sequence of observations, one per pass of its polling loop and one after
  the loop: the stop flag, the elapsed time in milliseconds, the iteration counter, and the
  tree under the root as a call of \<^verbatim>\<open>getMctsResults\<close> at that moment would read it. What it
  does is the list of signals it emits.
\<close>

record ControllerObs =
  obs_stopRequested :: bool
  obs_elapsed :: int
  obs_iterations :: int
  obs_root :: MCTSNode

datatype mcts_status = TimeLimitReached | Running int int | StoppedEarly

datatype mcts_signal =
    StatusUpdate mcts_status
  | IntermediateResult "MCTSResult list"
  | FinalResult "MCTSResult list"
  | MctsFinished

text \<open>The polling loop. The result is \<open>None\<close> when the observations run out while the loop
  is still running, and an error when a call of \<^verbatim>\<open>getMctsResults\<close> fails.\<close>

fun controllerLoop ::
  "AppConfig \<Rightarrow> int \<Rightarrow> int \<Rightarrow> ControllerObs list \<Rightarrow> (mcts_error + mcts_signal list) option" where
  "controllerLoop cfg intervalMs nextTime [] = None"
| "controllerLoop cfg intervalMs nextTime (ob # obs) =
     (if obs_stopRequested ob then Some (Inr [])
      else
        let elapsed = obs_elapsed ob
        in if real_of_int elapsed \<ge> mctsTimeLimit cfg * 1000
           then Some (Inr [StatusUpdate TimeLimitReached])
           else
             let status = StatusUpdate (Running (obs_iterations ob) elapsed)
             in if intervalMs > 0 \<and> elapsed \<ge> nextTime
                then (case getMctsResults cfg (Some (obs_root ob)) of
                        Inl e \<Rightarrow> Some (Inl e)
                      | Inr intermediate \<Rightarrow>
                          (case controllerLoop cfg intervalMs (elapsed + intervalMs) obs of
                             None \<Rightarrow> None
                           | Some (Inl e) \<Rightarrow> Some (Inl e)
                           | Some (Inr sigs) \<Rightarrow>
                               Some (Inr (status # IntermediateResult intermediate # sigs))))
                else (case controllerLoop cfg intervalMs nextTime obs of
                        None \<Rightarrow> None
                      | Some (Inl e) \<Rightarrow> Some (Inl e)
                      | Some (Inr sigs) \<Rightarrow> Some (Inr (status # sigs))))"

text \<open>The whole task: \<open>startElapsed\<close> is the first reading of the timer, \<open>obs\<close> the observations
  of the loop, \<open>final\<close> the observation after the loop (the stop flag and the timer are read
  once more there, and the tree is read by the last call of \<^verbatim>\<open>getMctsResults\<close>).\<close>

definition runMctsControllerTask ::
  "AppConfig \<Rightarrow> int \<Rightarrow> ControllerObs list \<Rightarrow> ControllerObs \<Rightarrow> (mcts_error + mcts_signal list) option" where
  "runMctsControllerTask cfg startElapsed obs final =
     (let intermediateResultIntervalMs = (if mctsUpdateIntervalIters cfg > 0 then 1000 else 0);
          nextIntermediateResultTime =
            (if intermediateResultIntervalMs > 0 then startElapsed + intermediateResultIntervalMs
             else - 1)
      in case controllerLoop cfg intermediateResultIntervalMs nextIntermediateResultTime obs of
           None \<Rightarrow> None
         | Some (Inl e) \<Rightarrow> Some (Inl e)
         | Some (Inr sigs) \<Rightarrow>
             let early = (if obs_stopRequested final
                               \<and> real_of_int (obs_elapsed final) < mctsTimeLimit cfg * 1000
                          then [StatusUpdate StoppedEarly] else [])
             in (case getMctsResults cfg (Some (obs_root final)) of
                   Inl e \<Rightarrow> Some (Inl e)
                 | Inr finalResults \<Rightarrow>
                     Some (Inr (sigs @ early @ [FinalResult finalResults, MctsFinished]))))"

subsection \<open>Specification-side notions for the ranking\<close>

text \<open>The order of the ranking: more visits first, and among equal visit counts the higher
  win rate first.\<close>

definition rankedBefore :: "MCTSResult \<Rightarrow> MCTSResult \<Rightarrow> bool" where
  "rankedBefore a b \<longleftrightarrow> visits a > visits b \<or> (visits a = visits b \<and> winRate a \<ge> winRate b)"

text \<open>A sample tree: four children of the root, one of them never visited.\<close>

definition sampleRoot :: MCTSNode where
  "sampleRoot =
     MCTSNode (freshDraft ''map'' ''mode'' {|''a'', ''b'', ''c'', ''d''|}) '''' 
       [MCTSNode (freshDraft ''map'' ''mode'' {||}) ''a'' [] 2 5 [] False,
        MCTSNode (freshDraft ''map'' ''mode'' {||}) ''b'' [] 4 8 [] False,
        MCTSNode (freshDraft ''map'' ''mode'' {||}) ''c'' [] 0 0 [] False,
        MCTSNode (freshDraft ''map'' ''mode'' {||}) ''d'' [] 3 5 [] False]
       9 18 [] False"

section \<open>Properties of the draft transitions\<close>

subsection \<open>Auxiliary facts\<close>

lemma removeAll_fset_eq: "removeAll_fset ps a = a |-| fset_of_list ps"
  unfolding removeAll_fset_def
  by (induction ps arbitrary: a) auto

lemma newDraftState_sel [simp]:
  "m_map (newDraftState mp md al bans t1 t2 turn pn) = mp"
  "m_mode (newDraftState mp md al bans t1 t2 turn pn) = md"
  "m_masterBrawlerList (newDraftState mp md al bans t1 t2 turn pn) = al"
  "m_bans (newDraftState mp md al bans t1 t2 turn pn) = bans"
  "m_team1Picks (newDraftState mp md al bans t1 t2 turn pn) = t1"
  "m_team2Picks (newDraftState mp md al bans t1 t2 turn pn) = t2"
  "m_turn (newDraftState mp md al bans t1 t2 turn pn) = turn"
  "m_pickNumber (newDraftState mp md al bans t1 t2 turn pn) = pn"
  "m_available (newDraftState mp md al bans t1 t2 turn pn) =
     al |-| bans |-| fset_of_list t1 |-| fset_of_list t2"
  by (simp_all add: newDraftState_def updateAvailable_def removeAll_fset_eq)

lemmas draft_eval =
  freshDraft_def applyMove_def applyBan_def newDraftState_def updateAvailable_def
  removeAll_fset_def isComplete_def nextTurnAfter_def

lemma draft_inv_fresh: "draft_inv (freshDraft mp md al)"
  by (simp add: draft_inv_def freshDraft_def turnAtPick_def team1SizeAt_def team2SizeAt_def
      fcard_fempty)

lemma fcard_finsert_le: "fcard (finsert x A) \<le> Suc (fcard A)"
  by (simp add: fcard_finsert_if)

lemma draft_inv_applyBan:
  assumes "draft_inv s" and "applyBan s b = Inr s'"
  shows "draft_inv s'"
proof -
  from assms(2) have lt: "fcard (m_bans s) < 6" and av: "b |\<in>| m_available s"
    and s': "s' = newDraftState (m_map s) (m_mode s) (m_masterBrawlerList s)
                  (finsert b (m_bans s)) (m_team1Picks s) (m_team2Picks s)
                  (m_turn s) (m_pickNumber s)"
    by (auto simp: applyBan_def split: if_splits)
  from assms(1) have avail: "m_available s =
       m_masterBrawlerList s |-| m_bans s |-| fset_of_list (m_team1Picks s)
         |-| fset_of_list (m_team2Picks s)"
    by (simp add: draft_inv_def)
  from av avail have b: "b |\<in>| m_masterBrawlerList s" "b |\<notin>| m_bans s"
    "b \<notin> set (m_team1Picks s)" "b \<notin> set (m_team2Picks s)"
    by (auto simp: fset_of_list.rep_eq)
  have "fcard (finsert b (m_bans s)) \<le> 6"
    using lt fcard_finsert_le [of b "m_bans s"] by linarith
  with assms(1) b show ?thesis
    unfolding s' draft_inv_def by (auto simp: fset_of_list.rep_eq)
qed

lemma pick_cases:
  "1 \<le> n \<Longrightarrow> n \<le> 6 \<Longrightarrow> n = 1 \<or> n = 2 \<or> n = 3 \<or> n = 4 \<or> n = 5 \<or> n = (6::int)"
  by arith

lemma nextTurnAfter_turnAtPick:
  "1 \<le> n \<Longrightarrow> n \<le> 6 \<Longrightarrow> nextTurnAfter n = turnAtPick (n + 1)"
  using pick_cases [of n] by (auto simp: nextTurnAfter_def turnAtPick_def)

lemma team1SizeAt_step:
  "1 \<le> n \<Longrightarrow> n \<le> 6 \<Longrightarrow>
     team1SizeAt (n + 1) = (if turnAtPick n = ''team1'' then Suc (team1SizeAt n) else team1SizeAt n)"
  using pick_cases [of n] by (auto simp: team1SizeAt_def turnAtPick_def)

lemma team2SizeAt_step:
  "1 \<le> n \<Longrightarrow> n \<le> 6 \<Longrightarrow>
     team2SizeAt (n + 1) = (if turnAtPick n = ''team2'' then Suc (team2SizeAt n) else team2SizeAt n)"
  using pick_cases [of n] by (auto simp: team2SizeAt_def turnAtPick_def)

lemma turnAtPick_team12:
  "1 \<le> n \<Longrightarrow> n \<le> 6 \<Longrightarrow> turnAtPick n = ''team1'' \<or> turnAtPick n = ''team2''"
  using pick_cases [of n] by (auto simp: turnAtPick_def)

lemma team1SizeAt_lt3: "1 \<le> n \<Longrightarrow> n \<le> 6 \<Longrightarrow> turnAtPick n = ''team1'' \<Longrightarrow> team1SizeAt n < 3"
  using pick_cases [of n] by (auto simp: team1SizeAt_def turnAtPick_def)

lemma team2SizeAt_lt3: "1 \<le> n \<Longrightarrow> n \<le> 6 \<Longrightarrow> turnAtPick n = ''team2'' \<Longrightarrow> team2SizeAt n < 3"
  using pick_cases [of n] by (auto simp: team2SizeAt_def turnAtPick_def)

lemma team1SizeAt_le3: "team1SizeAt n \<le> 3"
  by (simp add: team1SizeAt_def)

lemma team2SizeAt_le3: "team2SizeAt n \<le> 3"
  by (simp add: team2SizeAt_def)

lemma draft_inv_applyMove:
  assumes "draft_inv s" and "applyMove s b = Inr s'"
  shows "draft_inv s'"
proof -
  from assms(2) have nc: "m_pickNumber s \<le> 6" and av: "b |\<in>| m_available s"
    by (auto simp: applyMove_def isComplete_def split: if_splits)
  from assms(1) have ge: "1 \<le> m_pickNumber s" by (simp add: draft_inv_def)
  from assms(1) have avail: "m_available s =
       m_masterBrawlerList s |-| m_bans s |-| fset_of_list (m_team1Picks s)
         |-| fset_of_list (m_team2Picks s)"
    by (simp add: draft_inv_def)
  from av avail have b: "b |\<in>| m_masterBrawlerList s" "b |\<notin>| m_bans s"
    "b \<notin> set (m_team1Picks s)" "b \<notin> set (m_team2Picks s)"
    by (auto simp: fset_of_list.rep_eq)
  note steps = nextTurnAfter_turnAtPick [OF ge nc] team1SizeAt_step [OF ge nc]
    team2SizeAt_step [OF ge nc]
  from assms(2) consider
    (t1) "m_turn s = ''team1''"
      "s' = newDraftState (m_map s) (m_mode s) (m_masterBrawlerList s) (m_bans s)
              (m_team1Picks s @ [b]) (m_team2Picks s)
              (nextTurnAfter (m_pickNumber s)) (m_pickNumber s + 1)"
  | (t2) "m_turn s = ''team2''"
      "s' = newDraftState (m_map s) (m_mode s) (m_masterBrawlerList s) (m_bans s)
              (m_team1Picks s) (m_team2Picks s @ [b])
              (nextTurnAfter (m_pickNumber s)) (m_pickNumber s + 1)"
    by (auto simp: applyMove_def split: if_splits)
  then show ?thesis
  proof cases
    case t1
    with assms(1) have "turnAtPick (m_pickNumber s) = ''team1''" by (simp add: draft_inv_def)
    with assms(1) b ge nc show ?thesis
      unfolding t1(2) draft_inv_def by (simp add: steps fset_of_list.rep_eq)
  next
    case t2
    with assms(1) have "turnAtPick (m_pickNumber s) = ''team2''" by (simp add: draft_inv_def)
    with assms(1) b ge nc show ?thesis
      unfolding t2(2) draft_inv_def by (simp add: steps fset_of_list.rep_eq)
  qed
qed

lemma draft_inv_applyOps:
  "draft_inv s \<Longrightarrow> applyOps s ops = Inr s' \<Longrightarrow> draft_inv s'"
proof (induction ops arbitrary: s)
  case Nil then show ?case by simp
next
  case (Cons x xs)
  then show ?case
    by (cases x) (auto split: sum.splits dest: draft_inv_applyMove draft_inv_applyBan)
qed

lemma draft_inv_reachable:
  "applyOps (freshDraft mp md al) ops = Inr s \<Longrightarrow> draft_inv s"
  using draft_inv_applyOps [OF draft_inv_fresh] .

lemma applyMove_master:
  "applyMove s b = Inr s' \<Longrightarrow> m_masterBrawlerList s' = m_masterBrawlerList s"
  by (auto simp: applyMove_def split: if_splits)

lemma applyBan_master:
  "applyBan s b = Inr s' \<Longrightarrow> m_masterBrawlerList s' = m_masterBrawlerList s"
  by (auto simp: applyBan_def split: if_splits)

lemma applyOps_master:
  "applyOps s ops = Inr s' \<Longrightarrow> m_masterBrawlerList s' = m_masterBrawlerList s"
proof (induction ops arbitrary: s)
  case Nil then show ?case by simp
next
  case (Cons x xs)
  then show ?case
    by (cases x) (auto split: sum.splits dest: applyMove_master applyBan_master)
qed

lemma applyMove_step:
  "applyMove s b = Inr s' \<Longrightarrow>
     m_pickNumber s' = m_pickNumber s + 1 \<and> m_turn s' = nextTurnAfter (m_pickNumber s)"
  by (auto simp: applyMove_def split: if_splits)

lemma draft_inv_complete_iff: "draft_inv s \<Longrightarrow> isComplete s \<longleftrightarrow> m_pickNumber s = 7"
  by (auto simp: draft_inv_def isComplete_def)

subsection \<open>The reachable-state invariant\<close>

text \<open>
  Claim C2. Every state reached from a fresh draft by successful \<^verbatim>\<open>applyMove\<close> and
  \<^verbatim>\<open>applyBan\<close> calls has at most 3 picks per team and at most 6 bans; bans, team-1 picks and
  team-2 picks are pairwise disjoint; and the available set is the master set minus the bans
  and minus both teams' picks.
\<close>

theorem reachable_state_invariant:
  assumes "applyOps (freshDraft mp md allBrawlers) ops = Inr s"
  shows "length (m_team1Picks s) \<le> 3 \<and> length (m_team2Picks s) \<le> 3 \<and>
         fcard (m_bans s) \<le> 6 \<and>
         m_bans s |\<inter>| fset_of_list (m_team1Picks s) = {||} \<and>
         m_bans s |\<inter>| fset_of_list (m_team2Picks s) = {||} \<and>
         fset_of_list (m_team1Picks s) |\<inter>| fset_of_list (m_team2Picks s) = {||} \<and>
         m_masterBrawlerList s = allBrawlers \<and>
         m_available s =
           allBrawlers |-| m_bans s |-| fset_of_list (m_team1Picks s)
             |-| fset_of_list (m_team2Picks s)"
proof -
  have inv: "draft_inv s" using assms by (rule draft_inv_reachable)
  have m: "m_masterBrawlerList s = allBrawlers"
    using applyOps_master [OF assms] by (simp add: freshDraft_def)
  have d: "fset_of_list (m_team1Picks s) |\<inter>| fset_of_list (m_team2Picks s) = {||}"
    using inv by (auto simp: draft_inv_def fset_of_list.rep_eq)
  from inv m d show ?thesis
    by (simp add: draft_inv_def team1SizeAt_le3 team2SizeAt_le3)
qed

theorem reachable_state_invariant_witness:
  "\<exists>s. applyOps (freshDraft ''map'' ''mode'' {|''a'', ''b'', ''c'', ''d'', ''e''|})
          [Ban ''e'', Pick ''a'', Pick ''b'', Ban ''d''] = Inr s \<and>
       length (m_team1Picks s) \<le> 3 \<and> length (m_team2Picks s) \<le> 3 \<and>
       fcard (m_bans s) \<le> 6 \<and>
       m_bans s |\<inter>| fset_of_list (m_team1Picks s) = {||} \<and>
       m_bans s |\<inter>| fset_of_list (m_team2Picks s) = {||} \<and>
       fset_of_list (m_team1Picks s) |\<inter>| fset_of_list (m_team2Picks s) = {||} \<and>
       m_masterBrawlerList s = {|''a'', ''b'', ''c'', ''d'', ''e''|} \<and>
       m_available s =
         {|''a'', ''b'', ''c'', ''d'', ''e''|} |-| m_bans s |-| fset_of_list (m_team1Picks s)
           |-| fset_of_list (m_team2Picks s)"
proof -
  have "\<exists>s. applyOps (freshDraft ''map'' ''mode'' {|''a'', ''b'', ''c'', ''d'', ''e''|})
          [Ban ''e'', Pick ''a'', Pick ''b'', Ban ''d''] = Inr s"
    by (simp add: draft_eval fcard_fempty fcard_finsert_if)
  then obtain s where
    h: "applyOps (freshDraft ''map'' ''mode'' {|''a'', ''b'', ''c'', ''d'', ''e''|})
          [Ban ''e'', Pick ''a'', Pick ''b'', Ban ''d''] = Inr s" ..
  from reachable_state_invariant [OF h] h show ?thesis by blast
qed

subsection \<open>Turn order\<close>

text \<open>
  Claim C4. From a fresh draft, six successive successful picks are made with the turn at
  team1, team2, team2, team1, team1, team2 (pick numbers 1 to 6); after the sixth the turn is
  the empty string and the pick number is 7. For every state reachable from a fresh draft,
  \<^verbatim>\<open>isComplete()\<close> holds exactly when the pick number is 7.
\<close>

theorem fresh_draft_turn_order:
  assumes "s0 = freshDraft mp md allBrawlers"
    and "applyMove s0 b1 = Inr s1" and "applyMove s1 b2 = Inr s2"
    and "applyMove s2 b3 = Inr s3" and "applyMove s3 b4 = Inr s4"
    and "applyMove s4 b5 = Inr s5" and "applyMove s5 b6 = Inr s6"
  shows "m_turn s0 = ''team1'' \<and> m_pickNumber s0 = 1 \<and>
         m_turn s1 = ''team2'' \<and> m_pickNumber s1 = 2 \<and>
         m_turn s2 = ''team2'' \<and> m_pickNumber s2 = 3 \<and>
         m_turn s3 = ''team1'' \<and> m_pickNumber s3 = 4 \<and>
         m_turn s4 = ''team1'' \<and> m_pickNumber s4 = 5 \<and>
         m_turn s5 = ''team2'' \<and> m_pickNumber s5 = 6 \<and>
         m_turn s6 = '''' \<and> m_pickNumber s6 = 7 \<and>
         (\<forall>mp' md' allBrawlers' ops s.
            applyOps (freshDraft mp' md' allBrawlers') ops = Inr s \<longrightarrow>
              (isComplete s \<longleftrightarrow> m_pickNumber s = 7))"
proof -
  have p0: "m_turn s0 = ''team1''" "m_pickNumber s0 = 1"
    using assms(1) by (simp_all add: freshDraft_def)
  have p1: "m_turn s1 = ''team2''" "m_pickNumber s1 = 2"
    using applyMove_step [OF assms(2)] p0 by (simp_all add: nextTurnAfter_def)
  have p2: "m_turn s2 = ''team2''" "m_pickNumber s2 = 3"
    using applyMove_step [OF assms(3)] p1 by (simp_all add: nextTurnAfter_def)
  have p3: "m_turn s3 = ''team1''" "m_pickNumber s3 = 4"
    using applyMove_step [OF assms(4)] p2 by (simp_all add: nextTurnAfter_def)
  have p4: "m_turn s4 = ''team1''" "m_pickNumber s4 = 5"
    using applyMove_step [OF assms(5)] p3 by (simp_all add: nextTurnAfter_def)
  have p5: "m_turn s5 = ''team2''" "m_pickNumber s5 = 6"
    using applyMove_step [OF assms(6)] p4 by (simp_all add: nextTurnAfter_def)
  have p6: "m_turn s6 = ''''" "m_pickNumber s6 = 7"
    using applyMove_step [OF assms(7)] p5 by (simp_all add: nextTurnAfter_def)
  have r: "\<forall>mp' md' allBrawlers' ops s.
            applyOps (freshDraft mp' md' allBrawlers') ops = Inr s \<longrightarrow>
              (isComplete s \<longleftrightarrow> m_pickNumber s = 7)"
    using draft_inv_complete_iff [OF draft_inv_reachable] by blast
  from p0 p1 p2 p3 p4 p5 p6 r show ?thesis by blast
qed

theorem fresh_draft_turn_order_witness:
  "\<exists>s1 s2 s3 s4 s5 s6.
     applyMove (freshDraft ''map'' ''mode'' {|''a'', ''b'', ''c'', ''d'', ''e'', ''f''|}) ''a'' = Inr s1 \<and>
     applyMove s1 ''b'' = Inr s2 \<and> applyMove s2 ''c'' = Inr s3 \<and>
     applyMove s3 ''d'' = Inr s4 \<and> applyMove s4 ''e'' = Inr s5 \<and>
     applyMove s5 ''f'' = Inr s6 \<and>
     m_turn s1 = ''team2'' \<and> m_turn s2 = ''team2'' \<and> m_turn s3 = ''team1'' \<and>
     m_turn s4 = ''team1'' \<and> m_turn s5 = ''team2'' \<and> m_turn s6 = '''' \<and>
     m_pickNumber s6 = 7 \<and> isComplete s6 \<and>
     m_team1Picks s6 = [''a'', ''d'', ''e''] \<and> m_team2Picks s6 = [''b'', ''c'', ''f'']"
proof -
  define s0 where "s0 = freshDraft ''map'' ''mode'' {|''a'', ''b'', ''c'', ''d'', ''e'', ''f''|}"
  define s1 where "s1 = newDraftState ''map'' ''mode'' {|''a'', ''b'', ''c'', ''d'', ''e'', ''f''|}
                          {||} [''a''] [] ''team2'' 2"
  define s2 where "s2 = newDraftState ''map'' ''mode'' {|''a'', ''b'', ''c'', ''d'', ''e'', ''f''|}
                          {||} [''a''] [''b''] ''team2'' 3"
  define s3 where "s3 = newDraftState ''map'' ''mode'' {|''a'', ''b'', ''c'', ''d'', ''e'', ''f''|}
                          {||} [''a''] [''b'', ''c''] ''team1'' 4"
  define s4 where "s4 = newDraftState ''map'' ''mode'' {|''a'', ''b'', ''c'', ''d'', ''e'', ''f''|}
                          {||} [''a'', ''d''] [''b'', ''c''] ''team1'' 5"
  define s5 where "s5 = newDraftState ''map'' ''mode'' {|''a'', ''b'', ''c'', ''d'', ''e'', ''f''|}
                          {||} [''a'', ''d'', ''e''] [''b'', ''c''] ''team2'' 6"
  define s6 where "s6 = newDraftState ''map'' ''mode'' {|''a'', ''b'', ''c'', ''d'', ''e'', ''f''|}
                          {||} [''a'', ''d'', ''e''] [''b'', ''c'', ''f''] '''' 7"
  have m1: "applyMove s0 ''a'' = Inr s1"
    by (simp add: s0_def s1_def applyMove_def isComplete_def nextTurnAfter_def freshDraft_def)
  have m2: "applyMove s1 ''b'' = Inr s2"
    by (simp add: s1_def s2_def applyMove_def isComplete_def nextTurnAfter_def)
  have m3: "applyMove s2 ''c'' = Inr s3"
    by (simp add: s2_def s3_def applyMove_def isComplete_def nextTurnAfter_def)
  have m4: "applyMove s3 ''d'' = Inr s4"
    by (simp add: s3_def s4_def applyMove_def isComplete_def nextTurnAfter_def)
  have m5: "applyMove s4 ''e'' = Inr s5"
    by (simp add: s4_def s5_def applyMove_def isComplete_def nextTurnAfter_def)
  have m6: "applyMove s5 ''f'' = Inr s6"
    by (simp add: s5_def s6_def applyMove_def isComplete_def nextTurnAfter_def)
  note t = fresh_draft_turn_order [OF s0_def m1 m2 m3 m4 m5 m6]
  have c: "isComplete s6" "m_team1Picks s6 = [''a'', ''d'', ''e'']"
    "m_team2Picks s6 = [''b'', ''c'', ''f'']"
    by (simp_all add: s6_def isComplete_def)
  from t c m1 m2 m3 m4 m5 m6 show ?thesis unfolding s0_def by blast
qed

subsection \<open>Failure of transitions\<close>

lemma fold_finsert: "fold finsert xs A = A |\<union>| fset_of_list xs"
  by (induction xs arbitrary: A) auto

lemma draft_inv_isValid:
  assumes "draft_inv s"
  shows "isValid s"
proof -
  let ?b = "fset (m_bans s)" and ?t1 = "set (m_team1Picks s)" and ?t2 = "set (m_team2Picks s)"
  from assms have d: "distinct (m_team1Picks s)" "distinct (m_team2Picks s)"
    "?t1 \<inter> ?t2 = {}" "?b \<inter> ?t1 = {}" "?b \<inter> ?t2 = {}"
    by (auto simp: draft_inv_def fset_of_list.rep_eq)
  have "card (?b \<union> ?t1 \<union> ?t2) = card ?b + card ?t1 + card ?t2"
    using d by (simp add: card_Un_disjoint Int_Un_distrib2)
  then have c: "fcard (m_bans s |\<union>| fset_of_list (m_team1Picks s) |\<union>| fset_of_list (m_team2Picks s))
      = fcard (m_bans s) + length (m_team1Picks s) + length (m_team2Picks s)"
    using d by (simp add: fcard.rep_eq fset_of_list.rep_eq distinct_card)
  from assms have sz: "length (m_team1Picks s) \<le> 3" "length (m_team2Picks s) \<le> 3"
    "fcard (m_bans s) \<le> 6"
    by (simp_all add: draft_inv_def team1SizeAt_le3 team2SizeAt_le3)
  from assms have sub: "m_bans s |\<union>| fset_of_list (m_team1Picks s) |\<union>| fset_of_list (m_team2Picks s)
      |\<subseteq>| m_masterBrawlerList s"
    by (simp add: draft_inv_def)
  from c sz sub show ?thesis
    by (simp add: isValid_def Let_def fold_finsert)
qed


lemma applyMove_fails_iff:
  "(\<exists>e. applyMove s b = Inl e) \<longleftrightarrow>
     isComplete s \<or> b |\<notin>| m_available s
     \<or> (m_turn s = ''team1'' \<and> 3 \<le> length (m_team1Picks s))
     \<or> (m_turn s = ''team2'' \<and> 3 \<le> length (m_team2Picks s))
     \<or> (m_turn s \<noteq> ''team1'' \<and> m_turn s \<noteq> ''team2'')"
  by (simp add: applyMove_def)

lemma applyBan_fails_iff:
  "(\<exists>e. applyBan s b = Inl e) \<longleftrightarrow> 6 \<le> fcard (m_bans s) \<or> b |\<notin>| m_available s"
  by (simp add: applyBan_def)

lemma draft_inv_turn:
  assumes "draft_inv s" and "\<not> isComplete s"
  shows "(m_turn s = ''team1'' \<and> length (m_team1Picks s) < 3)
         \<or> (m_turn s = ''team2'' \<and> length (m_team2Picks s) < 3)"
proof -
  from assms have r: "1 \<le> m_pickNumber s" "m_pickNumber s \<le> 6"
    by (simp_all add: draft_inv_def isComplete_def)
  from assms(1) have e: "m_turn s = turnAtPick (m_pickNumber s)"
    "length (m_team1Picks s) = team1SizeAt (m_pickNumber s)"
    "length (m_team2Picks s) = team2SizeAt (m_pickNumber s)"
    by (simp_all add: draft_inv_def)
  from turnAtPick_team12 [OF r] team1SizeAt_lt3 [OF r] team2SizeAt_lt3 [OF r] e
  show ?thesis by auto
qed

text \<open>
  Claim C3, as stated, counts three causes of failure for \<^verbatim>\<open>applyMove\<close>. The code has a
  fourth: a turn that is neither \<^verbatim>\<open>"team1"\<close> nor \<^verbatim>\<open>"team2"\<close>. A state built by the public
  constructor with such a turn is not complete, has its brawler available and no team
  full, and \<^verbatim>\<open>applyMove\<close> still throws.
\<close>

theorem applyMove_invalid_turn_counterexample:
  "\<not> isComplete (newDraftState ''map'' ''mode'' {|''a''|} {||} [] [] ''team3'' 1) \<and>
   ''a'' |\<in>| m_available (newDraftState ''map'' ''mode'' {|''a''|} {||} [] [] ''team3'' 1) \<and>
   length (m_team1Picks (newDraftState ''map'' ''mode'' {|''a''|} {||} [] [] ''team3'' 1)) < 3 \<and>
   length (m_team2Picks (newDraftState ''map'' ''mode'' {|''a''|} {||} [] [] ''team3'' 1)) < 3 \<and>
   applyMove (newDraftState ''map'' ''mode'' {|''a''|} {||} [] [] ''team3'' 1) ''a''
     = Inl InvalidTurn"
  by (simp add: applyMove_def isComplete_def)

text \<open>
  Claim C3, amended. For every state, \<^verbatim>\<open>applyMove\<close> throws exactly when the draft is
  complete, or the brawler is not available, or the acting team already holds 3 picks, or
  the turn is neither \<^verbatim>\<open>"team1"\<close> nor \<^verbatim>\<open>"team2"\<close>; on a state reachable from a fresh draft the
  three causes of the claim are exact. \<^verbatim>\<open>applyBan\<close> throws exactly when at least 6 bans exist
  or the brawler is not available. Both are \<^verbatim>\<open>const\<close> member functions, so the receiver \<open>s\<close>
  is the same value before and after a failing call: a later call on \<open>s\<close> with a legal
  brawler succeeds whatever failed before, and a state reachable from a fresh draft passes
  \<^verbatim>\<open>isValid()\<close>.
\<close>

theorem transition_failure_conditions:
  "((\<exists>e. applyMove s b = Inl e) \<longleftrightarrow>
       isComplete s \<or> b |\<notin>| m_available s
       \<or> (m_turn s = ''team1'' \<and> 3 \<le> length (m_team1Picks s))
       \<or> (m_turn s = ''team2'' \<and> 3 \<le> length (m_team2Picks s))
       \<or> (m_turn s \<noteq> ''team1'' \<and> m_turn s \<noteq> ''team2'')) \<and>
   ((\<exists>e. applyBan s b = Inl e) \<longleftrightarrow> 6 \<le> fcard (m_bans s) \<or> b |\<notin>| m_available s) \<and>
   (applyOps (freshDraft mp md allBrawlers) ops = Inr s \<longrightarrow>
      ((\<exists>e. applyMove s b = Inl e) \<longleftrightarrow>
         isComplete s \<or> b |\<notin>| m_available s
         \<or> (m_turn s = ''team1'' \<and> 3 \<le> length (m_team1Picks s))
         \<or> (m_turn s = ''team2'' \<and> 3 \<le> length (m_team2Picks s)))) \<and>
   (applyOps (freshDraft mp md allBrawlers) ops = Inr s \<and> applyMove s b = Inl e
      \<and> \<not> isComplete s \<and> b' |\<in>| m_available s \<longrightarrow> (\<exists>s'. applyMove s b' = Inr s')) \<and>
   (applyBan s b = Inl e \<and> fcard (m_bans s) < 6 \<and> b' |\<in>| m_available s
      \<longrightarrow> (\<exists>s'. applyBan s b' = Inr s')) \<and>
   (applyOps (freshDraft mp md allBrawlers) ops = Inr s \<longrightarrow> isValid s)"
proof -
  have reach: "(m_turn s = ''team1'' \<and> length (m_team1Picks s) < 3)
         \<or> (m_turn s = ''team2'' \<and> length (m_team2Picks s) < 3)"
    if "applyOps (freshDraft mp md allBrawlers) ops = Inr s" and "\<not> isComplete s"
    using draft_inv_turn [OF draft_inv_reachable [OF that(1)] that(2)] .
  have a: "applyOps (freshDraft mp md allBrawlers) ops = Inr s \<longrightarrow>
      ((\<exists>e. applyMove s b = Inl e) \<longleftrightarrow>
         isComplete s \<or> b |\<notin>| m_available s
         \<or> (m_turn s = ''team1'' \<and> 3 \<le> length (m_team1Picks s))
         \<or> (m_turn s = ''team2'' \<and> 3 \<le> length (m_team2Picks s)))"
    using reach unfolding applyMove_fails_iff by auto
  have b: "applyOps (freshDraft mp md allBrawlers) ops = Inr s \<and> applyMove s b = Inl e
      \<and> \<not> isComplete s \<and> b' |\<in>| m_available s \<longrightarrow> (\<exists>s'. applyMove s b' = Inr s')"
    using reach by (auto simp: applyMove_def)
  have c: "applyBan s b = Inl e \<and> fcard (m_bans s) < 6 \<and> b' |\<in>| m_available s
      \<longrightarrow> (\<exists>s'. applyBan s b' = Inr s')"
    by (simp add: applyBan_def)
  have d: "applyOps (freshDraft mp md allBrawlers) ops = Inr s \<longrightarrow> isValid s"
    using draft_inv_isValid [OF draft_inv_reachable] by blast
  from applyMove_fails_iff [of s b] applyBan_fails_iff [of s b] a b c d show ?thesis by blast
qed

theorem transition_failure_conditions_witness:
  "\<exists>s. applyOps (freshDraft ''map'' ''mode'' {|''a'', ''b'', ''c''|}) [Pick ''a''] = Inr s \<and>
       applyMove s ''a'' = Inl BrawlerNotAvailable \<and> \<not> isComplete s \<and>
       ''b'' |\<in>| m_available s \<and> (\<exists>s'. applyMove s ''b'' = Inr s') \<and>
       applyBan s ''a'' = Inl BrawlerNotAvailableForBan \<and> fcard (m_bans s) < 6 \<and>
       (\<exists>s'. applyBan s ''b'' = Inr s') \<and> isValid s"
proof -
  define s where "s = newDraftState ''map'' ''mode'' {|''a'', ''b'', ''c''|} {||} [''a''] []
                        ''team2'' 2"
  have h: "applyOps (freshDraft ''map'' ''mode'' {|''a'', ''b'', ''c''|}) [Pick ''a''] = Inr s"
    by (simp add: s_def applyMove_def isComplete_def nextTurnAfter_def freshDraft_def)
  have f: "applyMove s ''a'' = Inl BrawlerNotAvailable"
    "applyBan s ''a'' = Inl BrawlerNotAvailableForBan"
    by (simp_all add: s_def applyMove_def applyBan_def isComplete_def fcard_fempty)
  have p: "\<not> isComplete s" "''b'' |\<in>| m_available s" "fcard (m_bans s) < 6"
    by (simp_all add: s_def isComplete_def fcard_fempty)
  note t = transition_failure_conditions
    [of s "''a''" "''map''" "''mode''" "{|''a'', ''b'', ''c''|}" "[Pick ''a'']"]
  from t [of BrawlerNotAvailable "''b''"] h f p have m: "\<exists>s'. applyMove s ''b'' = Inr s'"
    by blast
  from t [of BrawlerNotAvailableForBan "''b''"] h f p have n: "\<exists>s'. applyBan s ''b'' = Inr s'"
    by blast
  from t [of BrawlerNotAvailable "''b''"] h have v: "isValid s" by blast
  from h f p m n v show ?thesis by blast
qed

subsection \<open>Bans after completion\<close>

text \<open>
  Claim C9. \<^verbatim>\<open>applyBan\<close> does not look at the pick number or the turn: on a completed draft
  (pick number 7, empty turn) a ban of an available brawler succeeds as long as fewer than 6
  bans exist, and returns the state with the brawler added to the bans and the turn and pick
  number as they were.
\<close>

theorem applyBan_on_completed_draft:
  assumes "isComplete s" and "fcard (m_bans s) < 6" and "b |\<in>| m_available s"
  shows "applyBan s b =
           Inr (newDraftState (m_map s) (m_mode s) (m_masterBrawlerList s)
                  (finsert b (m_bans s)) (m_team1Picks s) (m_team2Picks s)
                  (m_turn s) (m_pickNumber s)) \<and>
         (\<forall>pn t. isl (applyBan (s\<lparr>m_turn := t, m_pickNumber := pn\<rparr>) b) = isl (applyBan s b))"
  using assms by (simp add: applyBan_def)

theorem applyBan_on_completed_draft_witness:
  "\<exists>s. applyOps (freshDraft ''map'' ''mode'' {|''a'', ''b'', ''c'', ''d'', ''e'', ''f'', ''g''|})
          [Pick ''a'', Pick ''b'', Pick ''c'', Pick ''d'', Pick ''e'', Pick ''f''] = Inr s \<and>
       isComplete s \<and> m_pickNumber s = 7 \<and> m_turn s = '''' \<and>
       fcard (m_bans s) < 6 \<and> ''g'' |\<in>| m_available s \<and>
       (\<exists>s'. applyBan s ''g'' = Inr s' \<and> m_bans s' = {|''g''|} \<and> m_pickNumber s' = 7
              \<and> m_turn s' = '''' \<and> isComplete s')"
proof -
  define s where "s = newDraftState ''map'' ''mode''
                        {|''a'', ''b'', ''c'', ''d'', ''e'', ''f'', ''g''|}
                        {||} [''a'', ''d'', ''e''] [''b'', ''c'', ''f''] '''' 7"
  have h: "applyOps (freshDraft ''map'' ''mode'' {|''a'', ''b'', ''c'', ''d'', ''e'', ''f'', ''g''|})
          [Pick ''a'', Pick ''b'', Pick ''c'', Pick ''d'', Pick ''e'', Pick ''f''] = Inr s"
    by (simp add: s_def applyMove_def isComplete_def nextTurnAfter_def freshDraft_def)
  have p: "isComplete s" "fcard (m_bans s) < 6" "''g'' |\<in>| m_available s"
    "m_pickNumber s = 7" "m_turn s = ''''"
    by (simp_all add: s_def isComplete_def fcard_fempty)
  from applyBan_on_completed_draft [OF p(1,2,3)]
  have "applyBan s ''g'' =
           Inr (newDraftState (m_map s) (m_mode s) (m_masterBrawlerList s)
                  (finsert ''g'' (m_bans s)) (m_team1Picks s) (m_team2Picks s)
                  (m_turn s) (m_pickNumber s))" by blast
  then have "\<exists>s'. applyBan s ''g'' = Inr s' \<and> m_bans s' = {|''g''|} \<and> m_pickNumber s' = 7
              \<and> m_turn s' = '''' \<and> isComplete s'"
    by (simp add: s_def isComplete_def)
  with h p show ?thesis by blast
qed

section \<open>Properties of the rank weight\<close>

lemma wrap_int32_id: "0 \<le> x \<Longrightarrow> x < 2147483648 \<Longrightarrow> wrap_int32 x = x"
  by (simp add: wrap_int32_def)

lemma rankWeightScaleDivisor_pos: "0 < rankWeightScaleDivisor cfg"
  by (simp add: rankWeightScaleDivisor_def Let_def)

lemma clamped_span:
  fixes lo hi r :: int
  assumes "hi - lo < 2147483648"
  shows "0 \<le> max lo (min r hi) - lo" and "max lo (min r hi) - lo < 2147483648"
  using assms by auto

text \<open>
  Claim C10, as stated, fails: it speaks of every configuration, but the rank bounds are read from the
  settings without validation, and when they are \<open>2^31\<close> or more apart the \<^verbatim>\<open>int\<close>
  subtraction \<^verbatim>\<open>clampedRank - minRank()\<close> leaves the range of \<^verbatim>\<open>int\<close>. With \<^verbatim>\<open>MinRank\<close> =
  -2000000000 and \<^verbatim>\<open>MaxRankConsidered\<close> = 2000000000 the difference at rank 2000000000 wraps
  to a negative number and the \<open>max(0.1, _)\<close> floor does take effect: the weight is 0.1,
  below 1 and below the weight at rank 0.
\<close>

theorem getRankWeight_overflow_counterexample:
  "getRankWeight
     (defaultConfig\<lparr>cfg_MinRank := - 2000000000, cfg_MaxRankConsidered := 2000000000\<rparr>)
     2000000000 = 1 / 10 \<and>
   getRankWeight
     (defaultConfig\<lparr>cfg_MinRank := - 2000000000, cfg_MaxRankConsidered := 2000000000\<rparr>)
     0 = 2000000003 / 3"
  by (simp add: getRankWeight_def maxRankConsidered_def minRank_def defaultConfig_def
      rankWeightScaleDivisor_def wrap_int32_def Let_def)

text \<open>
  Claim C10, amended. For every configuration whose rank bounds are less than \<open>2^31\<close> apart
  (\<open>maxRankConsidered - minRank < 2^31\<close>, so that the \<^verbatim>\<open>int\<close> subtraction
  \<^verbatim>\<open>clampedRank - minRank()\<close> cannot overflow) and for every rank, \<^verbatim>\<open>getRankWeight(rank)\<close> is
  at least 1: the divisor getter yields a positive divisor, the clamped rank is at least
  \<^verbatim>\<open>minRank\<close>, so the quotient \<open>(clampedRank - minRank + divisor) / divisor\<close> is at least 1 and
  the \<open>max(0.1, _)\<close> floor never takes effect; and \<^verbatim>\<open>getRankWeight\<close> is non-decreasing in the
  rank.
\<close>

theorem getRankWeight_ge_one_mono:
  assumes "maxRankConsidered cfg - minRank cfg < 2147483648"
  shows "1 \<le> getRankWeight cfg r0 \<and>
         getRankWeight cfg r0 =
           (real_of_int (max (minRank cfg) (min r0 (maxRankConsidered cfg)) - minRank cfg)
              + rankWeightScaleDivisor cfg) / rankWeightScaleDivisor cfg \<and>
         (\<forall>r'. r0 \<le> r' \<longrightarrow> getRankWeight cfg r0 \<le> getRankWeight cfg r')"
proof -
  define d where "d = rankWeightScaleDivisor cfg"
  have d: "0 < d" unfolding d_def by (rule rankWeightScaleDivisor_pos)
  define c where "c r = max (minRank cfg) (min r (maxRankConsidered cfg)) - minRank cfg" for r
  have c0: "0 \<le> c r" and c1: "wrap_int32 (c r) = c r" for r
    using clamped_span [OF assms, of r] by (simp_all add: c_def wrap_int32_id)
  have q: "1 \<le> (real_of_int (c r) + d) / d" for r
    using d c0 [of r] by (simp add: field_simps)
  have w: "getRankWeight cfg r = (real_of_int (c r) + d) / d" for r
  proof -
    have "getRankWeight cfg r = max (1 / 10) ((real_of_int (c r) + d) / d)"
      using c1 [of r] by (simp add: getRankWeight_def Let_def c_def d_def)
    with q [of r] show ?thesis by simp
  qed
  have m: "getRankWeight cfg r0 \<le> getRankWeight cfg r'" if "r0 \<le> r'" for r'
  proof -
    from that have "c r0 \<le> c r'" by (auto simp: c_def)
    then have "real_of_int (c r0) + d \<le> real_of_int (c r') + d" by simp
    then show ?thesis using d by (simp add: w divide_le_cancel)
  qed
  from q [of r0] w [of r0] m show ?thesis by (simp add: c_def d_def)
qed

theorem getRankWeight_ge_one_mono_witness:
  "maxRankConsidered defaultConfig - minRank defaultConfig < 2147483648 \<and>
   1 \<le> getRankWeight defaultConfig 15 \<and>
   getRankWeight defaultConfig 15 = 8 / 3 \<and>
   getRankWeight defaultConfig 15 \<le> getRankWeight defaultConfig 40"
proof -
  have h: "maxRankConsidered defaultConfig - minRank defaultConfig < 2147483648"
    by (simp add: maxRankConsidered_def minRank_def defaultConfig_def)
  have v: "getRankWeight defaultConfig 15 = 8 / 3"
    by (simp add: getRankWeight_def maxRankConsidered_def minRank_def defaultConfig_def
        rankWeightScaleDivisor_def wrap_int32_def Let_def)
  note t = getRankWeight_ge_one_mono [OF h, of 15]
  from t have a: "1 \<le> getRankWeight defaultConfig 15" by blast
  from t have "\<forall>r'. 15 \<le> r' \<longrightarrow> getRankWeight defaultConfig 15 \<le> getRankWeight defaultConfig r'"
    by blast
  then have b: "getRankWeight defaultConfig 15 \<le> getRankWeight defaultConfig 40" by simp
  from h a v b show ?thesis by blast
qed

section \<open>Properties of the stat accessors\<close>

lemma clamp01_bounds: "0 \<le> max 0 (min 1 (x::real)) \<and> max 0 (min 1 x) \<le> 1"
  by auto

lemma getSynergyScore_range:
  "0 \<le> getSynergyScore sc b1 b2 mapName mode \<and> getSynergyScore sc b1 b2 mapName mode \<le> 1"
  by (simp add: getSynergyScore_def Let_def split: option.splits)

lemma getCounterScore_range:
  "0 \<le> getCounterScore sc b1 b2 mapName mode \<and> getCounterScore sc b1 b2 mapName mode \<le> 1"
  by (simp add: getCounterScore_def Let_def split: option.splits)

text \<open>
  Claim C7. \<^verbatim>\<open>getSynergyScore\<close> and \<^verbatim>\<open>getCounterScore\<close> return exactly 0.5 when the
  (map, mode) bucket is unknown and when the queried pair has no entry in the bucket. Their
  return type is a plain \<^verbatim>\<open>double\<close>, so there is no "no data" result; in every case the value
  returned lies between 0 and 1.
\<close>

theorem synergy_counter_neutral_when_absent:
  "(getMapModeStats sc mapName mode = None \<longrightarrow>
      getSynergyScore sc b1 b2 mapName mode = 1 / 2 \<and>
      getCounterScore sc b1 b2 mapName mode = 1 / 2) \<and>
   (\<forall>stats. getMapModeStats sc mapName mode = Some stats \<longrightarrow>
      (map_of (synergyStats stats) (sortedPairKey b1 b2) = None \<longrightarrow>
         getSynergyScore sc b1 b2 mapName mode = 1 / 2) \<and>
      (map_of (counterStats stats) (counterPairKey b1 b2) = None \<longrightarrow>
         getCounterScore sc b1 b2 mapName mode = 1 / 2)) \<and>
   0 \<le> getSynergyScore sc b1 b2 mapName mode \<and> getSynergyScore sc b1 b2 mapName mode \<le> 1 \<and>
   0 \<le> getCounterScore sc b1 b2 mapName mode \<and> getCounterScore sc b1 b2 mapName mode \<le> 1"
proof -
  have a: "getMapModeStats sc mapName mode = None \<longrightarrow>
      getSynergyScore sc b1 b2 mapName mode = 1 / 2 \<and>
      getCounterScore sc b1 b2 mapName mode = 1 / 2"
    by (simp add: getSynergyScore_def getCounterScore_def)
  have b: "\<forall>stats. getMapModeStats sc mapName mode = Some stats \<longrightarrow>
      (map_of (synergyStats stats) (sortedPairKey b1 b2) = None \<longrightarrow>
         getSynergyScore sc b1 b2 mapName mode = 1 / 2) \<and>
      (map_of (counterStats stats) (counterPairKey b1 b2) = None \<longrightarrow>
         getCounterScore sc b1 b2 mapName mode = 1 / 2)"
    by (simp add: getSynergyScore_def getCounterScore_def)
  from a b getSynergyScore_range [of sc b1 b2 mapName mode]
    getCounterScore_range [of sc b1 b2 mapName mode]
  show ?thesis by blast
qed

theorem synergy_counter_neutral_when_absent_witness:
  "getMapModeStats \<lparr>m_config = defaultConfig, m_stats = []\<rparr> ''map'' ''mode'' = None \<and>
   getSynergyScore \<lparr>m_config = defaultConfig, m_stats = []\<rparr> ''a'' ''b'' ''map'' ''mode'' = 1 / 2 \<and>
   getCounterScore \<lparr>m_config = defaultConfig, m_stats = []\<rparr> ''a'' ''b'' ''map'' ''mode'' = 1 / 2 \<and>
   getMapModeStats
     \<lparr>m_config = defaultConfig,
      m_stats = [(''map'', [(''mode'',
         \<lparr>brawlerStats = [(''a'', \<lparr>wins = 1, plays = 1\<rparr>)], synergyStats = [],
          counterStats = [], totalWeightedPlays = 1\<rparr>)])]\<rparr> ''map'' ''mode''
     = Some \<lparr>brawlerStats = [(''a'', \<lparr>wins = 1, plays = 1\<rparr>)], synergyStats = [],
          counterStats = [], totalWeightedPlays = 1\<rparr> \<and>
   getSynergyScore
     \<lparr>m_config = defaultConfig,
      m_stats = [(''map'', [(''mode'',
         \<lparr>brawlerStats = [(''a'', \<lparr>wins = 1, plays = 1\<rparr>)], synergyStats = [],
          counterStats = [], totalWeightedPlays = 1\<rparr>)])]\<rparr> ''a'' ''b'' ''map'' ''mode'' = 1 / 2 \<and>
   getCounterScore
     \<lparr>m_config = defaultConfig,
      m_stats = [(''map'', [(''mode'',
         \<lparr>brawlerStats = [(''a'', \<lparr>wins = 1, plays = 1\<rparr>)], synergyStats = [],
          counterStats = [], totalWeightedPlays = 1\<rparr>)])]\<rparr> ''a'' ''b'' ''map'' ''mode'' = 1 / 2"
proof -
  define sc0 where "sc0 = \<lparr>m_config = defaultConfig, m_stats = []\<rparr>"
  define bucket where "bucket = \<lparr>brawlerStats = [(''a'', \<lparr>wins = 1, plays = 1\<rparr>)],
    synergyStats = [], counterStats = [], totalWeightedPlays = 1\<rparr>"
  define sc1 where "sc1 = \<lparr>m_config = defaultConfig, m_stats = [(''map'', [(''mode'', bucket)])]\<rparr>"
  have h0: "getMapModeStats sc0 ''map'' ''mode'' = None"
    by (simp add: sc0_def getMapModeStats_def)
  have h1: "getMapModeStats sc1 ''map'' ''mode'' = Some bucket"
    by (simp add: sc1_def getMapModeStats_def)
  have h2: "map_of (synergyStats bucket) (sortedPairKey ''a'' ''b'') = None"
    "map_of (counterStats bucket) (counterPairKey ''a'' ''b'') = None"
    by (simp_all add: bucket_def)
  from synergy_counter_neutral_when_absent [of sc0 "''map''" "''mode''" "''a''" "''b''"] h0
  have r0: "getSynergyScore sc0 ''a'' ''b'' ''map'' ''mode'' = 1 / 2"
    "getCounterScore sc0 ''a'' ''b'' ''map'' ''mode'' = 1 / 2" by blast+
  from synergy_counter_neutral_when_absent [of sc1 "''map''" "''mode''" "''a''" "''b''"] h1 h2
  have r1: "getSynergyScore sc1 ''a'' ''b'' ''map'' ''mode'' = 1 / 2"
    "getCounterScore sc1 ''a'' ''b'' ''map'' ''mode'' = 1 / 2" by blast+
  from h0 h1 r0 r1 show ?thesis unfolding sc0_def sc1_def bucket_def by blast
qed

lemma getWinRate_None_iff:
  "getWinRate sc b mapName mode = None \<longleftrightarrow> getMapModeStats sc mapName mode = None"
  by (simp add: getWinRate_def Let_def split: option.splits)

text \<open>
  Claim C5, as stated, promises a value in \<open>[0,1]\<close> for all non-negative plays, wins and \<open>k\<close>.
  With \<open>k = 0\<close> and a stored entry of 0 plays the guard \<^verbatim>\<open>plays + k <= 0\<close> returns the
  configured low-confidence target as it is, without the final clamp: with a target of 2 the
  result is 2.
\<close>

theorem getWinRate_unclamped_target_counterexample:
  "getWinRate
     \<lparr>m_config = defaultConfig\<lparr>cfg_SmoothingK := 0, cfg_LowConfidenceWinRateTarget := 2\<rparr>,
      m_stats = [(''map'', [(''mode'',
         \<lparr>brawlerStats = [(''a'', \<lparr>wins = 0, plays = 0\<rparr>)], synergyStats = [],
          counterStats = [], totalWeightedPlays = 0\<rparr>)])]\<rparr>
     ''a'' ''map'' ''mode'' = Some 2"
  by (simp add: getWinRate_def getMapModeStats_def smoothingK_def lowConfidenceWinRateTarget_def
      defaultConfig_def)

text \<open>
  Claim C5, amended. \<^verbatim>\<open>getWinRate\<close> returns the empty optional exactly when the (map, mode)
  bucket is unknown. In a known bucket it returns the configured low-confidence target for
  an unseen brawler, and also for a stored brawler with \<open>plays + k \<le> 0\<close>. When
  \<open>plays + k > 0\<close> it returns the smoothed rate \<open>(wins + k/2) / (plays + k)\<close> blended toward the
  target by the confidence factor and clamped to \<open>[0,1]\<close>, where the confidence factor is
  \<open>clamp(pickRate / threshold, 0, 1)\<close> for a positive threshold and 1 otherwise, and the pick
  rate counts as 0 when \<^verbatim>\<open>getPickRate\<close> has no data. The value lies in \<open>[0,1]\<close> whenever
  \<open>plays + k > 0\<close>, and in every case when the configured target lies in \<open>[0,1]\<close>.
\<close>

theorem getWinRate_cases:
  "(getWinRate sc b mapName mode = None \<longleftrightarrow> getMapModeStats sc mapName mode = None) \<and>
   (\<forall>stats. getMapModeStats sc mapName mode = Some stats \<longrightarrow>
      (map_of (brawlerStats stats) b = None \<longrightarrow>
         getWinRate sc b mapName mode = Some (lowConfidenceWinRateTarget (m_config sc))) \<and>
      (\<forall>bs. map_of (brawlerStats stats) b = Some bs \<longrightarrow>
         (plays bs + smoothingK (m_config sc) \<le> 0 \<longrightarrow>
            getWinRate sc b mapName mode = Some (lowConfidenceWinRateTarget (m_config sc))) \<and>
         (0 < plays bs + smoothingK (m_config sc) \<longrightarrow>
            getWinRate sc b mapName mode =
              Some (max 0 (min 1
                (laplaceRate (smoothingK (m_config sc)) (wins bs) (plays bs)
                     * confidenceFactorOf sc b mapName mode
                 + lowConfidenceWinRateTarget (m_config sc)
                     * (1 - confidenceFactorOf sc b mapName mode)))))) \<and>
      (\<exists>v. getWinRate sc b mapName mode = Some v \<and>
           ((0 \<le> lowConfidenceWinRateTarget (m_config sc)
               \<and> lowConfidenceWinRateTarget (m_config sc) \<le> 1) \<or>
            (\<exists>bs. map_of (brawlerStats stats) b = Some bs
               \<and> 0 < plays bs + smoothingK (m_config sc))
              \<longrightarrow> 0 \<le> v \<and> v \<le> 1)))"
proof -
  define k where "k = smoothingK (m_config sc)"
  define target where "target = lowConfidenceWinRateTarget (m_config sc)"
  define cf where "cf = confidenceFactorOf sc b mapName mode"
  have a: "getWinRate sc b mapName mode = None \<longleftrightarrow> getMapModeStats sc mapName mode = None"
    by (rule getWinRate_None_iff)
  have b: "(map_of (brawlerStats stats) b = None \<longrightarrow> getWinRate sc b mapName mode = Some target) \<and>
      (\<forall>bs. map_of (brawlerStats stats) b = Some bs \<longrightarrow>
         (plays bs + k \<le> 0 \<longrightarrow> getWinRate sc b mapName mode = Some target) \<and>
         (0 < plays bs + k \<longrightarrow>
            getWinRate sc b mapName mode =
              Some (max 0 (min 1 (laplaceRate k (wins bs) (plays bs) * cf + target * (1 - cf))))))"
    if "getMapModeStats sc mapName mode = Some stats" for stats
    using that
    by (simp add: getWinRate_def Let_def k_def target_def cf_def confidenceFactorOf_def
        pickRateOrZero_def laplaceRate_def)
  have c: "\<exists>v. getWinRate sc b mapName mode = Some v \<and>
           ((0 \<le> target \<and> target \<le> 1) \<or>
            (\<exists>bs. map_of (brawlerStats stats) b = Some bs \<and> 0 < plays bs + k)
              \<longrightarrow> 0 \<le> v \<and> v \<le> 1)"
    if s: "getMapModeStats sc mapName mode = Some stats" for stats
  proof (cases "map_of (brawlerStats stats) b")
    case None
    with b [OF s] show ?thesis by simp
  next
    case (Some bs)
    show ?thesis
    proof (cases "plays bs + k \<le> 0")
      case True
      with b [OF s] Some show ?thesis by simp
    next
      case False
      with b [OF s] Some show ?thesis by simp
    qed
  qed
  from a b c show ?thesis unfolding k_def target_def cf_def by blast
qed

theorem getWinRate_cases_witness:
  "getMapModeStats
     \<lparr>m_config = defaultConfig,
      m_stats = [(''map'', [(''mode'',
         \<lparr>brawlerStats = [(''a'', \<lparr>wins = 3, plays = 4\<rparr>)], synergyStats = [],
          counterStats = [], totalWeightedPlays = 400\<rparr>)])]\<rparr> ''map'' ''mode''
     = Some \<lparr>brawlerStats = [(''a'', \<lparr>wins = 3, plays = 4\<rparr>)], synergyStats = [],
          counterStats = [], totalWeightedPlays = 400\<rparr> \<and>
   getWinRate
     \<lparr>m_config = defaultConfig,
      m_stats = [(''map'', [(''mode'',
         \<lparr>brawlerStats = [(''a'', \<lparr>wins = 3, plays = 4\<rparr>)], synergyStats = [],
          counterStats = [], totalWeightedPlays = 400\<rparr>)])]\<rparr> ''a'' ''map'' ''mode''
     = Some (2 / 9) \<and>
   getWinRate
     \<lparr>m_config = defaultConfig,
      m_stats = [(''map'', [(''mode'',
         \<lparr>brawlerStats = [(''a'', \<lparr>wins = 3, plays = 4\<rparr>)], synergyStats = [],
          counterStats = [], totalWeightedPlays = 400\<rparr>)])]\<rparr> ''b'' ''map'' ''mode''
     = Some 0 \<and>
   getWinRate
     \<lparr>m_config = defaultConfig,
      m_stats = [(''map'', [(''mode'',
         \<lparr>brawlerStats = [(''a'', \<lparr>wins = 3, plays = 4\<rparr>)], synergyStats = [],
          counterStats = [], totalWeightedPlays = 400\<rparr>)])]\<rparr> ''a'' ''map'' ''other''
     = None"
proof -
  define bucket where "bucket = \<lparr>brawlerStats = [(''a'', \<lparr>wins = 3, plays = 4\<rparr>)],
    synergyStats = [], counterStats = [], totalWeightedPlays = 400\<rparr>"
  define sc where "sc = \<lparr>m_config = defaultConfig, m_stats = [(''map'', [(''mode'', bucket)])]\<rparr>"
  have h: "getMapModeStats sc ''map'' ''mode'' = Some bucket"
    and h': "getMapModeStats sc ''map'' ''other'' = None"
    by (simp_all add: sc_def getMapModeStats_def)
  have e: "map_of (brawlerStats bucket) ''a'' = Some \<lparr>wins = 3, plays = 4\<rparr>"
    "map_of (brawlerStats bucket) ''b'' = None"
    by (simp_all add: bucket_def)
  have cfg: "smoothingK (m_config sc) = 2" "lowConfidenceWinRateTarget (m_config sc) = 0"
    "lowPickRateThreshold (m_config sc) = 3 / 100"
    by (simp_all add: sc_def defaultConfig_def smoothingK_def lowConfidenceWinRateTarget_def
        lowPickRateThreshold_def)
  have pr: "getPickRate sc ''a'' ''map'' ''mode'' = Some (1 / 100)"
    using h e by (simp add: getPickRate_def bucket_def)
  from getWinRate_cases [of sc "''a''" "''map''" "''mode''"] h e(1)
  have "getWinRate sc ''a'' ''map'' ''mode'' = Some (2 / 9)"
    by (simp add: cfg pr confidenceFactorOf_def pickRateOrZero_def laplaceRate_def)
  moreover from getWinRate_cases [of sc "''b''" "''map''" "''mode''"] h e(2)
  have "getWinRate sc ''b'' ''map'' ''mode'' = Some 0"
    by (simp add: cfg)
  moreover from getWinRate_cases [of sc "''a''" "''map''" "''other''"] h'
  have "getWinRate sc ''a'' ''map'' ''other'' = None"
    by blast
  ultimately show ?thesis using h unfolding sc_def bucket_def by blast
qed

section \<open>Properties of the win-probability model\<close>

subsection \<open>The logistic map and the cross-pair loop\<close>













subsection \<open>The table built from the sample match\<close>

lemma sample_rank_weights: "getRankWeight defaultConfig 10 = 1" "getRankWeight defaultConfig 13 = 2"
  by (simp_all add: getRankWeight_def maxRankConsidered_def minRank_def defaultConfig_def
        rankWeightScaleDivisor_def wrap_int32_def Let_def)

lemma update_fresh: "k \<notin> fst ` set al \<Longrightarrow> AList.update k v al = al @ [(k, v)]"
  by (induction al) auto

lemma qhash_modify_fresh:
  "k \<notin> fst ` set h \<Longrightarrow> qhash_modify k f h = h @ [(k, f newBrawlerStats)]"
  by (simp add: qhash_modify_def qhash_value_def update_fresh map_of_eq_None_iff [THEN iffD2])

lemma sampleStats_eval:
  "sampleStats =
     \<lparr>m_config = defaultConfig,
      m_stats =
      [(''map'',
        [(''mode'',
          \<lparr>brawlerStats =
             [(''a'', \<lparr>wins = 1, plays = 1\<rparr>),
              (''b'', \<lparr>wins = 1, plays = 1\<rparr>),
              (''c'', \<lparr>wins = 1, plays = 1\<rparr>),
              (''x'', \<lparr>wins = 0, plays = 2\<rparr>),
              (''y'', \<lparr>wins = 0, plays = 2\<rparr>),
              (''z'', \<lparr>wins = 0, plays = 2\<rparr>)],
             synergyStats =
               [(''a|b'', \<lparr>wins = 1, plays = 1\<rparr>),
                (''a|c'', \<lparr>wins = 1, plays = 1\<rparr>),
                (''b|c'', \<lparr>wins = 1, plays = 1\<rparr>),
                (''x|y'', \<lparr>wins = 0, plays = 2\<rparr>),
                (''x|z'', \<lparr>wins = 0, plays = 2\<rparr>),
                (''y|z'', \<lparr>wins = 0, plays = 2\<rparr>)],
             counterStats =
               [(''a|x'', \<lparr>wins = 1, plays = 1\<rparr>),
                (''x|a'', \<lparr>wins = 0, plays = 2\<rparr>),
                (''a|y'', \<lparr>wins = 1, plays = 1\<rparr>),
                (''y|a'', \<lparr>wins = 0, plays = 2\<rparr>),
                (''a|z'', \<lparr>wins = 1, plays = 1\<rparr>),
                (''z|a'', \<lparr>wins = 0, plays = 2\<rparr>),
                (''b|x'', \<lparr>wins = 1, plays = 1\<rparr>),
                (''x|b'', \<lparr>wins = 0, plays = 2\<rparr>),
                (''b|y'', \<lparr>wins = 1, plays = 1\<rparr>),
                (''y|b'', \<lparr>wins = 0, plays = 2\<rparr>),
                (''b|z'', \<lparr>wins = 1, plays = 1\<rparr>),
                (''z|b'', \<lparr>wins = 0, plays = 2\<rparr>),
                (''c|x'', \<lparr>wins = 1, plays = 1\<rparr>),
                (''x|c'', \<lparr>wins = 0, plays = 2\<rparr>),
                (''c|y'', \<lparr>wins = 1, plays = 1\<rparr>),
                (''y|c'', \<lparr>wins = 0, plays = 2\<rparr>),
                (''c|z'', \<lparr>wins = 1, plays = 1\<rparr>),
                (''z|c'', \<lparr>wins = 0, plays = 2\<rparr>)],
             totalWeightedPlays = 9\<rparr>)])]\<rparr>"
proof -
  define winners where "winners = [\<lparr>brawlerName = ''a'', rank = 10\<rparr>,
    \<lparr>brawlerName = ''b'', rank = 10\<rparr>, \<lparr>brawlerName = ''c'', rank = 10\<rparr>]"
  define losers where "losers = [\<lparr>brawlerName = ''x'', rank = 13\<rparr>,
    \<lparr>brawlerName = ''y'', rank = 13\<rparr>, \<lparr>brawlerName = ''z'', rank = 13\<rparr>]"
  define bs1 where "bs1 = [(''a'', \<lparr>wins = 1, plays = 1\<rparr>), (''b'', \<lparr>wins = 1, plays = 1\<rparr>),
    (''c'', \<lparr>wins = 1, plays = 1\<rparr>)]"
  define bs2 where "bs2 = bs1 @ [(''x'', \<lparr>wins = 0, plays = 2\<rparr>), (''y'', \<lparr>wins = 0, plays = 2\<rparr>),
    (''z'', \<lparr>wins = 0, plays = 2\<rparr>)]"
  define sy1 where "sy1 = [(''a|b'', \<lparr>wins = 1, plays = 1\<rparr>), (''a|c'', \<lparr>wins = 1, plays = 1\<rparr>),
    (''b|c'', \<lparr>wins = 1, plays = 1\<rparr>)]"
  define sy2 where "sy2 = sy1 @ [(''x|y'', \<lparr>wins = 0, plays = 2\<rparr>), (''x|z'', \<lparr>wins = 0, plays = 2\<rparr>),
    (''y|z'', \<lparr>wins = 0, plays = 2\<rparr>)]"
  have w: "addWinners defaultConfig winners (newMapModeStats, 0)
      = (\<lparr>brawlerStats = bs1, synergyStats = [], counterStats = [], totalWeightedPlays = 0\<rparr>, 3)"
    by (simp add: addWinners_def winners_def bs1_def qhash_modify_fresh sample_rank_weights atomic_add_double_def
        newMapModeStats_def newBrawlerStats_def)
  have l: "addLosers defaultConfig losers
             (\<lparr>brawlerStats = bs1, synergyStats = [], counterStats = [], totalWeightedPlays = 0\<rparr>, 3)
      = (\<lparr>brawlerStats = bs2, synergyStats = [], counterStats = [], totalWeightedPlays = 0\<rparr>, 9)"
    by (simp add: addLosers_def losers_def bs1_def bs2_def qhash_modify_fresh sample_rank_weights
        atomic_add_double_def newBrawlerStats_def)
  have s1: "updateTeamSynergy defaultConfig
              \<lparr>brawlerStats = bs2, synergyStats = [], counterStats = [], totalWeightedPlays = 9\<rparr>
              winners True
      = \<lparr>brawlerStats = bs2, synergyStats = sy1, counterStats = [], totalWeightedPlays = 9\<rparr>"
    by (simp add: updateTeamSynergy_def winners_def sy1_def qhash_modify_fresh sample_rank_weights
        atomic_add_double_def newBrawlerStats_def upt_rec c_round_def sortedPairKey_def)
  have s2: "updateTeamSynergy defaultConfig
              \<lparr>brawlerStats = bs2, synergyStats = sy1, counterStats = [], totalWeightedPlays = 9\<rparr>
              losers False
      = \<lparr>brawlerStats = bs2, synergyStats = sy2, counterStats = [], totalWeightedPlays = 9\<rparr>"
    by (simp add: updateTeamSynergy_def losers_def sy1_def sy2_def qhash_modify_fresh sample_rank_weights
        atomic_add_double_def newBrawlerStats_def upt_rec c_round_def sortedPairKey_def)
  have c: "addCounters defaultConfig winners losers
              \<lparr>brawlerStats = bs2, synergyStats = sy2, counterStats = [], totalWeightedPlays = 9\<rparr>
      = \<lparr>brawlerStats = bs2, synergyStats = sy2,
         counterStats =
               [(''a|x'', \<lparr>wins = 1, plays = 1\<rparr>),
                (''x|a'', \<lparr>wins = 0, plays = 2\<rparr>),
                (''a|y'', \<lparr>wins = 1, plays = 1\<rparr>),
                (''y|a'', \<lparr>wins = 0, plays = 2\<rparr>),
                (''a|z'', \<lparr>wins = 1, plays = 1\<rparr>),
                (''z|a'', \<lparr>wins = 0, plays = 2\<rparr>),
                (''b|x'', \<lparr>wins = 1, plays = 1\<rparr>),
                (''x|b'', \<lparr>wins = 0, plays = 2\<rparr>),
                (''b|y'', \<lparr>wins = 1, plays = 1\<rparr>),
                (''y|b'', \<lparr>wins = 0, plays = 2\<rparr>),
                (''b|z'', \<lparr>wins = 1, plays = 1\<rparr>),
                (''z|b'', \<lparr>wins = 0, plays = 2\<rparr>),
                (''c|x'', \<lparr>wins = 1, plays = 1\<rparr>),
                (''x|c'', \<lparr>wins = 0, plays = 2\<rparr>),
                (''c|y'', \<lparr>wins = 1, plays = 1\<rparr>),
                (''y|c'', \<lparr>wins = 0, plays = 2\<rparr>),
                (''c|z'', \<lparr>wins = 1, plays = 1\<rparr>),
                (''z|c'', \<lparr>wins = 0, plays = 2\<rparr>)],
         totalWeightedPlays = 9\<rparr>"
    by (simp add: addCounters_def winners_def losers_def qhash_modify_fresh sample_rank_weights
        atomic_add_double_def newBrawlerStats_def counterPairKey_def)
  have g: "winningTeamData sampleGame = winners" "losingTeamData sampleGame = losers"
    "game_map sampleGame = ''map''" "game_mode sampleGame = ''mode''"
    by (simp_all add: sampleGame_def winners_def losers_def)
  have p: "processGame defaultConfig sampleGame [] = [(''map'', [(''mode'',
       \<lparr>brawlerStats = bs2, synergyStats = sy2,
         counterStats =
               [(''a|x'', \<lparr>wins = 1, plays = 1\<rparr>),
                (''x|a'', \<lparr>wins = 0, plays = 2\<rparr>),
                (''a|y'', \<lparr>wins = 1, plays = 1\<rparr>),
                (''y|a'', \<lparr>wins = 0, plays = 2\<rparr>),
                (''a|z'', \<lparr>wins = 1, plays = 1\<rparr>),
                (''z|a'', \<lparr>wins = 0, plays = 2\<rparr>),
                (''b|x'', \<lparr>wins = 1, plays = 1\<rparr>),
                (''x|b'', \<lparr>wins = 0, plays = 2\<rparr>),
                (''b|y'', \<lparr>wins = 1, plays = 1\<rparr>),
                (''y|b'', \<lparr>wins = 0, plays = 2\<rparr>),
                (''b|z'', \<lparr>wins = 1, plays = 1\<rparr>),
                (''z|b'', \<lparr>wins = 0, plays = 2\<rparr>),
                (''c|x'', \<lparr>wins = 1, plays = 1\<rparr>),
                (''x|c'', \<lparr>wins = 0, plays = 2\<rparr>),
                (''c|y'', \<lparr>wins = 1, plays = 1\<rparr>),
                (''y|c'', \<lparr>wins = 0, plays = 2\<rparr>),
                (''c|z'', \<lparr>wins = 1, plays = 1\<rparr>),
                (''z|c'', \<lparr>wins = 0, plays = 2\<rparr>)],
         totalWeightedPlays = 9\<rparr>)])]"
    unfolding processGame_def g
    by (simp add: qhash_value2_def qhash_value_def qhash_store2_def w l s1 s2 c
        atomic_add_double_def)
  show ?thesis
    by (simp add: sampleStats_def newStatsCalculator_def calculateStats_def p bs2_def bs1_def
        sy2_def sy1_def)
qed







subsection \<open>The logistic map around one half\<close>




subsection \<open>Swapping the teams\<close>





section \<open>The cache round trip\<close>

subsection \<open>Two-level hashes\<close>

lemma qhash_value2_lookup2:
  "qhash_value2 dflt h m d = (case qhash_lookup2 h m d of None \<Rightarrow> dflt | Some v \<Rightarrow> v)"
  by (simp add: qhash_value2_def qhash_value_def qhash_lookup2_def split: option.splits)

lemma qhash_lookup2_store2:
  "qhash_lookup2 (qhash_store2 m d v h) m' d' =
     (if m' = m \<and> d' = d then Some v else qhash_lookup2 h m' d')"
  by (simp add: qhash_lookup2_def qhash_store2_def qhash_value_def update_conv'
      split: option.splits)

lemma qhash2_wf_Nil: "qhash2_wf P []"
  by (simp add: qhash2_wf_def)

lemma qhash2_wf_lookup2: "qhash2_wf P h \<Longrightarrow> qhash_lookup2 h m d = Some v \<Longrightarrow> P v"
  by (auto simp: qhash2_wf_def qhash_lookup2_def split: option.splits)

lemma qhash2_wf_store2:
  assumes "qhash2_wf P h" and "P v"
  shows "qhash2_wf P (qhash_store2 m d v h)"
proof -
  have inner: "distinct (map fst (qhash_value [] h m))"
    using assms(1) by (auto simp: qhash2_wf_def qhash_value_def split: option.splits)
  have innerP: "P x" if "map_of (qhash_value [] h m) d' = Some x" for d' x
    using assms(1) that by (auto simp: qhash2_wf_def qhash_value_def split: option.splits)
  show ?thesis
    unfolding qhash2_wf_def qhash_store2_def
    using assms inner innerP
    by (auto simp: qhash2_wf_def update_conv' distinct_update split: if_splits)
qed

lemma inner_fold_lookup2:
  assumes "distinct (map fst modes)"
    and "\<forall>d \<in> fst ` set modes. qhash_lookup2 acc m d = None"
  shows "qhash_lookup2
           (fold (\<lambda>(modeName, src) acc'.
                    qhash_store2 m modeName (f src (qhash_value2 dflt acc' m modeName)) acc')
                 modes acc) m' d'
         = (if m' = m
            then (case map_of modes d' of
                    Some src \<Rightarrow> Some (f src dflt)
                  | None \<Rightarrow> qhash_lookup2 acc m' d')
            else qhash_lookup2 acc m' d')"
  using assms
proof (induction modes arbitrary: acc)
  case Nil
  then show ?case by simp
next
  case (Cons x modes)
  obtain d src where x: "x = (d, src)" by (cases x)
  let ?acc1 = "qhash_store2 m d (f src (qhash_value2 dflt acc m d)) acc"
  from Cons.prems have none: "qhash_lookup2 acc m d = None" by (simp add: x)
  then have v: "qhash_value2 dflt acc m d = dflt" by (simp add: qhash_value2_lookup2)
  have pre: "\<forall>d'' \<in> fst ` set modes. qhash_lookup2 ?acc1 m d'' = None"
    using Cons.prems by (auto simp: x qhash_lookup2_store2)
  have dist: "distinct (map fst modes)" using Cons.prems by simp
  have notin: "d \<notin> fst ` set modes" using Cons.prems by (simp add: x)
  then have mo: "map_of modes d = None" by (simp add: map_of_eq_None_iff)
  show ?case
    using Cons.IH [OF dist pre] mo
    by (simp add: x v qhash_lookup2_store2 split: option.splits)
qed

lemma outer_fold_lookup2:
  assumes "distinct (map fst s)"
    and "\<forall>m modes. map_of s m = Some modes \<longrightarrow> distinct (map fst modes)"
    and "\<forall>m \<in> fst ` set s. \<forall>d. qhash_lookup2 acc m d = None"
  shows "qhash_lookup2
           (fold (\<lambda>(mapName, modes) acc.
                    fold (\<lambda>(modeName, src) acc'.
                            qhash_store2 mapName modeName
                              (f src (qhash_value2 dflt acc' mapName modeName)) acc')
                         modes acc)
                 s acc) m' d'
         = (case qhash_lookup2 s m' d' of
              Some src \<Rightarrow> Some (f src dflt)
            | None \<Rightarrow> qhash_lookup2 acc m' d')"
  using assms
proof (induction s arbitrary: acc)
  case Nil
  then show ?case by (simp add: qhash_lookup2_def)
next
  case (Cons x s)
  obtain m modes where x: "x = (m, modes)" by (cases x)
  let ?acc1 = "fold (\<lambda>(modeName, src) acc'.
                    qhash_store2 m modeName (f src (qhash_value2 dflt acc' m modeName)) acc')
                 modes acc"
  have dm: "distinct (map fst modes)"
    using Cons.prems(2) [rule_format, of m modes] by (simp add: x)
  have pre_inner: "\<forall>d \<in> fst ` set modes. qhash_lookup2 acc m d = None"
    using Cons.prems(3) by (simp add: x)
  note inner = inner_fold_lookup2 [OF dm pre_inner, of f dflt]
  have notin: "m \<notin> fst ` set s" and ds: "distinct (map fst s)"
    using Cons.prems(1) by (simp_all add: x)
  have s2: "\<forall>m' modes'. map_of s m' = Some modes' \<longrightarrow> distinct (map fst modes')"
  proof (intro allI impI)
    fix m' modes' assume a: "map_of s m' = Some modes'"
    then have "m' \<in> fst ` set s" by (metis domI dom_map_of_conv_image_fst)
    with notin have "m' \<noteq> m" by auto
    with a Cons.prems(2) [rule_format, of m' modes'] show "distinct (map fst modes')"
      by (simp add: x)
  qed
  have pre_outer: "\<forall>m'' \<in> fst ` set s. \<forall>d. qhash_lookup2 ?acc1 m'' d = None"
    using Cons.prems(3) notin by (auto simp: inner x)
  have "map_of s m = None" using notin by (simp add: map_of_eq_None_iff)
  then have rest_none: "qhash_lookup2 s m d = None" for d
    by (simp add: qhash_lookup2_def)
  have hd: "qhash_lookup2 (x # s) m' d' = (if m' = m then map_of modes d' else qhash_lookup2 s m' d')"
    by (simp add: x qhash_lookup2_def)
  have step: "fold (\<lambda>(mapName, modes) acc.
                    fold (\<lambda>(modeName, src) acc'.
                            qhash_store2 mapName modeName
                              (f src (qhash_value2 dflt acc' mapName modeName)) acc')
                         modes acc)
                 (x # s) acc
            = fold (\<lambda>(mapName, modes) acc.
                    fold (\<lambda>(modeName, src) acc'.
                            qhash_store2 mapName modeName
                              (f src (qhash_value2 dflt acc' mapName modeName)) acc')
                         modes acc)
                 s ?acc1"
    by (simp add: x)
  show ?case
  proof (cases "m' = m")
    case True
    show ?thesis
      unfolding step Cons.IH [OF ds s2 pre_outer] hd
      using True rest_none [of d'] by (simp add: inner split: option.splits)
  next
    case False
    show ?thesis
      unfolding step Cons.IH [OF ds s2 pre_outer] hd
      using False by (simp add: inner split: option.splits)
  qed
qed

lemma nested_fold_wf:
  assumes "qhash2_wf P acc" and "P dflt" and "\<And>src tgt. P tgt \<Longrightarrow> P (f src tgt)"
  shows "qhash2_wf P
           (fold (\<lambda>(mapName, modes) acc.
                    fold (\<lambda>(modeName, src) acc'.
                            qhash_store2 mapName modeName
                              (f src (qhash_value2 dflt acc' mapName modeName)) acc')
                         modes acc)
                 s acc)"
proof -
  have value2: "P (qhash_value2 dflt h m d)" if "qhash2_wf P h" for h m d
    using that assms(2) qhash2_wf_lookup2 [of P h m d]
    by (simp add: qhash_value2_lookup2 split: option.splits)
  have inner: "qhash2_wf P
                 (fold (\<lambda>(modeName, src) acc'.
                          qhash_store2 m modeName (f src (qhash_value2 dflt acc' m modeName)) acc')
                       modes h)" if "qhash2_wf P h" for m modes h
    using that
  proof (induction modes arbitrary: h)
    case Nil
    then show ?case by simp
  next
    case (Cons x modes)
    obtain d src where x: "x = (d, src)" by (cases x)
    have "qhash2_wf P (qhash_store2 m d (f src (qhash_value2 dflt h m d)) h)"
      using Cons.prems by (intro qhash2_wf_store2 assms(3) value2)
    from Cons.IH [OF this] show ?case by (simp add: x)
  qed
  show ?thesis
    using assms(1)
  proof (induction s arbitrary: acc)
    case Nil
    then show ?case by simp
  next
    case (Cons x s)
    obtain m modes where x: "x = (m, modes)" by (cases x)
    from Cons.IH [OF inner [OF Cons.prems, of m modes]] show ?case by (simp add: x)
  qed
qed

subsection \<open>Entries and buckets\<close>

lemma fold_update_append:
  assumes "distinct (map fst src)" and "fst ` set src \<inter> fst ` set tgt = {}"
  shows "fold (\<lambda>(k, v) t. AList.update k (g v) t) src tgt = tgt @ map (\<lambda>(k, v). (k, g v)) src"
  using assms
proof (induction src arbitrary: tgt)
  case Nil
  then show ?case by simp
next
  case (Cons x src)
  obtain k v where x: "x = (k, v)" by (cases x)
  from Cons.prems have k: "k \<notin> fst ` set tgt" and d: "distinct (map fst src)"
    and kk: "k \<notin> fst ` set src" by (auto simp: x)
  have disj: "fst ` set src \<inter> fst ` set (tgt @ [(k, g v)]) = {}"
    using Cons.prems kk by (auto simp: x)
  show ?case
    using Cons.IH [OF d disj] by (simp add: x update_fresh [OF k])
qed

lemma fold_update_distinct:
  "distinct (map fst tgt) \<Longrightarrow>
     distinct (map fst (fold (\<lambda>(k, v) t. AList.update k (g v) t) src tgt))"
  by (induction src arbitrary: tgt) (auto simp: distinct_update)

lemma BrawlerStatsData_overwrite:
  "(r :: BrawlerStatsData)\<lparr>data_wins := a, data_plays := b\<rparr> = \<lparr>data_wins = a, data_plays = b\<rparr>"
  by (cases r) simp

lemma BrawlerStats_overwrite:
  "(r :: BrawlerStats)\<lparr>wins := a, plays := b\<rparr> = \<lparr>wins = a, plays = b\<rparr>"
  by (cases r) simp

lemma exportEntries_eq:
  "exportEntries source target =
     fold (\<lambda>(k, v) t. AList.update k \<lparr>data_wins = wins v, data_plays = plays v\<rparr> t) source target"
proof -
  have h: "(\<lambda>(key, v) t.
        let t1 = AList.update key ((qhash_value newBrawlerStatsData t key)\<lparr>data_wins := wins v\<rparr>) t
        in AList.update key ((qhash_value newBrawlerStatsData t1 key)\<lparr>data_plays := plays v\<rparr>) t1)
      = (\<lambda>(k, v) t. AList.update k \<lparr>data_wins = wins v, data_plays = plays v\<rparr> t)"
    by (intro ext)
      (simp add: Let_def qhash_value_def update_conv' BrawlerStatsData_overwrite
        split: prod.splits)
  show ?thesis unfolding exportEntries_def h by (rule refl)
qed

lemma importEntries_eq:
  "importEntries source target =
     fold (\<lambda>(k, v) t. AList.update k \<lparr>wins = data_wins v, plays = data_plays v\<rparr> t) source target"
proof -
  have h: "(\<lambda>(key, v) t.
        let t1 = AList.update key ((qhash_value newBrawlerStats t key)\<lparr>wins := data_wins v\<rparr>) t
        in AList.update key ((qhash_value newBrawlerStats t1 key)\<lparr>plays := data_plays v\<rparr>) t1)
      = (\<lambda>(k, v) t. AList.update k \<lparr>wins = data_wins v, plays = data_plays v\<rparr> t)"
    by (intro ext)
      (simp add: Let_def qhash_value_def update_conv' BrawlerStats_overwrite
        split: prod.splits)
  show ?thesis unfolding importEntries_def h by (rule refl)
qed

lemma exportEntries_Nil:
  "distinct (map fst h) \<Longrightarrow>
     exportEntries h [] = map (\<lambda>(k, v). (k, \<lparr>data_wins = wins v, data_plays = plays v\<rparr>)) h"
  using fold_update_append [of h "[]" "\<lambda>v. \<lparr>data_wins = wins v, data_plays = plays v\<rparr>"]
  by (simp add: exportEntries_eq)

lemma importEntries_Nil:
  "distinct (map fst h) \<Longrightarrow>
     importEntries h [] = map (\<lambda>(k, v). (k, \<lparr>wins = data_wins v, plays = data_plays v\<rparr>)) h"
  using fold_update_append [of h "[]" "\<lambda>v. \<lparr>wins = data_wins v, plays = data_plays v\<rparr>"]
  by (simp add: importEntries_eq)

lemma entries_round_trip:
  assumes "distinct (map fst h)"
  shows "importEntries (exportEntries h []) [] = h"
proof -
  have d: "distinct (map fst (exportEntries h []))"
    unfolding exportEntries_eq by (rule fold_update_distinct) simp
  have "map (\<lambda>(k, v). (k, \<lparr>wins = data_wins v, plays = data_plays v\<rparr>))
          (map (\<lambda>(k, v). (k, \<lparr>data_wins = wins v, data_plays = plays v\<rparr>)) h) = h"
    by (induction h) auto
  then show ?thesis
    using importEntries_Nil [OF d] by (simp add: exportEntries_Nil [OF assms])
qed

lemma exportBucket_wf: "bucket_data_wf tgt \<Longrightarrow> bucket_data_wf (exportBucket src tgt)"
  by (simp add: bucket_data_wf_def exportBucket_def exportEntries_eq fold_update_distinct)

lemma importBucket_wf: "bucket_wf tgt \<Longrightarrow> bucket_wf (importBucket src tgt)"
  by (simp add: bucket_wf_def importBucket_def importEntries_eq fold_update_distinct)

lemma new_buckets_wf: "bucket_data_wf newMapModeStatsData" "bucket_wf newMapModeStats"
  by (simp_all add: bucket_data_wf_def bucket_wf_def newMapModeStatsData_def newMapModeStats_def)

lemma bucket_round_trip:
  "bucket_wf st \<Longrightarrow> importBucket (exportBucket st newMapModeStatsData) newMapModeStats = st"
  by (simp add: bucket_wf_def importBucket_def exportBucket_def newMapModeStatsData_def
      newMapModeStats_def entries_round_trip)

subsection \<open>Export followed by import\<close>

lemma getMapModeStats_lookup2: "getMapModeStats sc m d = qhash_lookup2 (m_stats sc) m d"
  by (simp add: getMapModeStats_def qhash_lookup2_def)

lemma qhash2_wf_distinct:
  "qhash2_wf P h \<Longrightarrow> distinct (map fst h)"
  "qhash2_wf P h \<Longrightarrow> \<forall>m modes. map_of h m = Some modes \<longrightarrow> distinct (map fst modes)"
  by (simp_all add: qhash2_wf_def)

lemma export_lookup2:
  assumes "qhash2_wf bucket_wf (m_stats sc)"
  shows "qhash_lookup2 (cache_stats (getStatsForCache sc)) m d =
           map_option (\<lambda>src. exportBucket src newMapModeStatsData) (qhash_lookup2 (m_stats sc) m d)"
proof -
  have e: "\<forall>m \<in> fst ` set (m_stats sc). \<forall>d. qhash_lookup2 ([] :: MapModeStatsData qhash qhash) m d = None"
    by (simp add: qhash_lookup2_def)
  show ?thesis
    unfolding getStatsForCache_def
    using outer_fold_lookup2 [OF qhash2_wf_distinct [OF assms] e,
        of exportBucket newMapModeStatsData m d]
    by (simp add: newCacheData_def qhash_lookup2_def split: option.splits)
qed

lemma export_wf: "qhash2_wf bucket_data_wf (cache_stats (getStatsForCache sc))"
proof -
  have "qhash2_wf bucket_data_wf
          (fold (\<lambda>(mapName, modes) acc.
                  fold (\<lambda>(modeName, sourceStats) acc'.
                          qhash_store2 mapName modeName
                            (exportBucket sourceStats
                               (qhash_value2 newMapModeStatsData acc' mapName modeName))
                            acc')
                       modes acc)
               (m_stats sc) [])"
    by (rule nested_fold_wf) (simp_all add: qhash2_wf_Nil exportBucket_wf new_buckets_wf)
  then show ?thesis by (simp add: getStatsForCache_def newCacheData_def)
qed

lemma import_lookup2:
  assumes "qhash2_wf bucket_data_wf (cache_stats cd)"
  shows "qhash_lookup2 (m_stats (setStatsFromCacheData sc cd)) m d =
           map_option (\<lambda>src. importBucket src newMapModeStats) (qhash_lookup2 (cache_stats cd) m d)"
proof -
  have e: "\<forall>m \<in> fst ` set (cache_stats cd). \<forall>d. qhash_lookup2 ([] :: MapModeStats qhash qhash) m d = None"
    by (simp add: qhash_lookup2_def)
  show ?thesis
    unfolding setStatsFromCacheData_def
    using outer_fold_lookup2 [OF qhash2_wf_distinct [OF assms] e,
        of importBucket newMapModeStats m d]
    by (simp add: qhash_lookup2_def split: option.splits)
qed

lemma import_wf: "qhash2_wf bucket_wf (m_stats (setStatsFromCacheData sc cd))"
proof -
  have "qhash2_wf bucket_wf
          (fold (\<lambda>(mapName, modes) acc.
                  fold (\<lambda>(modeName, sourceData) acc'.
                          qhash_store2 mapName modeName
                            (importBucket sourceData
                               (qhash_value2 newMapModeStats acc' mapName modeName))
                            acc')
                       modes acc)
               (cache_stats cd) [])"
    by (rule nested_fold_wf) (simp_all add: qhash2_wf_Nil importBucket_wf new_buckets_wf)
  then show ?thesis by (simp add: setStatsFromCacheData_def)
qed

lemma setStatsFromCacheData_stats_only:
  "cache_stats cd = cache_stats cd' \<Longrightarrow>
     setStatsFromCacheData receiver cd = setStatsFromCacheData receiver cd'"
  by (simp add: setStatsFromCacheData_def)

lemma round_trip_wf:
  assumes "qhash2_wf bucket_wf (m_stats sc)"
  shows "getMapModeStats (setStatsFromCacheData receiver (getStatsForCache sc)) m d
           = getMapModeStats sc m d"
proof (cases "qhash_lookup2 (m_stats sc) m d")
  case None
  then show ?thesis
    by (simp add: getMapModeStats_lookup2 import_lookup2 [OF export_wf] export_lookup2 [OF assms])
next
  case (Some st)
  then have "bucket_wf st" using assms by (rule qhash2_wf_lookup2 [rotated])
  with Some show ?thesis
    by (simp add: getMapModeStats_lookup2 import_lookup2 [OF export_wf] export_lookup2 [OF assms]
        bucket_round_trip)
qed

subsection \<open>Tables built by \<^verbatim>\<open>calculateStats\<close>\<close>

lemma qhash_modify_distinct:
  "distinct (map fst h) \<Longrightarrow> distinct (map fst (qhash_modify k f h))"
  by (simp add: qhash_modify_def distinct_update)

lemma addWinners_wf: "bucket_wf (fst acc) \<Longrightarrow> bucket_wf (fst (addWinners cfg team acc))"
  unfolding addWinners_def
  by (rule fold_invariant [where Q = "\<lambda>_. True" and P = "\<lambda>a. bucket_wf (fst a)"])
    (simp_all add: split_beta Let_def bucket_wf_def qhash_modify_distinct)

lemma addLosers_wf: "bucket_wf (fst acc) \<Longrightarrow> bucket_wf (fst (addLosers cfg team acc))"
  unfolding addLosers_def
  by (rule fold_invariant [where Q = "\<lambda>_. True" and P = "\<lambda>a. bucket_wf (fst a)"])
    (simp_all add: split_beta Let_def bucket_wf_def qhash_modify_distinct)

lemma updateTeamSynergy_wf:
  assumes "bucket_wf st"
  shows "bucket_wf (updateTeamSynergy cfg st teamData win)"
  unfolding updateTeamSynergy_def
proof (rule fold_invariant [where Q = "\<lambda>_. True" and P = bucket_wf])
  show "bucket_wf st" by (rule assms)
next
  fix i s
  assume s: "bucket_wf s"
  show "bucket_wf
          (fold (\<lambda>j st'.
                     let p1 = teamData ! i;
                         p2 = teamData ! j;
                         pairKey = sortedPairKey (brawlerName p1) (brawlerName p2);
                         avgRank = (real_of_int (rank p1) + real_of_int (rank p2)) / 2;
                         weight = getRankWeight cfg (c_round avgRank)
                     in st'\<lparr>synergyStats :=
                            qhash_modify pairKey
                              (\<lambda>pairStats.
                                 let s1 = (if win
                                           then pairStats\<lparr>wins := atomic_add_double (wins pairStats) weight\<rparr>
                                           else pairStats)
                                 in s1\<lparr>plays := atomic_add_double (plays s1) weight\<rparr>)
                              (synergyStats st')\<rparr>)
                  [i + 1 ..< length teamData] s)"
    by (rule fold_invariant [where Q = "\<lambda>_. True" and P = bucket_wf])
      (use s in \<open>simp_all add: Let_def bucket_wf_def qhash_modify_distinct\<close>)
qed simp

lemma addCounters_wf:
  assumes "bucket_wf st"
  shows "bucket_wf (addCounters cfg winners losers st)"
  unfolding addCounters_def
proof (rule fold_invariant [where Q = "\<lambda>_. True" and P = bucket_wf])
  show "bucket_wf st" by (rule assms)
next
  fix winnerData :: PlayerData and s
  assume s: "bucket_wf s"
  show "bucket_wf
          (let weightWin = getRankWeight cfg (rank winnerData)
             in fold (\<lambda>loserData st'.
                        let weightLose = getRankWeight cfg (rank loserData);
                            winLoseKey = counterPairKey (brawlerName winnerData) (brawlerName loserData);
                            c1 = qhash_modify winLoseKey
                                   (\<lambda>cStatsWin.
                                      cStatsWin\<lparr>wins := atomic_add_double (wins cStatsWin) weightWin,
                                                plays := atomic_add_double (plays cStatsWin) weightWin\<rparr>)
                                   (counterStats st');
                            loseWinKey = counterPairKey (brawlerName loserData) (brawlerName winnerData);
                            c2 = qhash_modify loseWinKey
                                   (\<lambda>cStatsLose.
                                      cStatsLose\<lparr>plays := atomic_add_double (plays cStatsLose) weightLose\<rparr>)
                                   c1
                        in st'\<lparr>counterStats := c2\<rparr>)
                     losers s)"
    unfolding Let_def
    by (rule fold_invariant [where Q = "\<lambda>_. True" and P = bucket_wf])
      (use s in \<open>simp_all add: bucket_wf_def qhash_modify_distinct\<close>)
qed simp

lemma processGame_wf:
  assumes "qhash2_wf bucket_wf stats"
  shows "qhash2_wf bucket_wf (processGame cfg game stats)"
proof -
  define cur where "cur = qhash_value2 newMapModeStats stats (game_map game) (game_mode game)"
  have c: "bucket_wf cur"
    using assms qhash2_wf_lookup2 [of bucket_wf stats "game_map game" "game_mode game"]
    by (simp add: cur_def qhash_value2_lookup2 new_buckets_wf split: option.splits)
  define a1 where "a1 = addWinners cfg (winningTeamData game) (cur, 0)"
  define a2 where "a2 = addLosers cfg (losingTeamData game) a1"
  have w1: "bucket_wf (fst a1)" unfolding a1_def by (rule addWinners_wf) (simp add: c)
  have w2: "bucket_wf (fst a2)" unfolding a2_def by (rule addLosers_wf) (rule w1)
  define st3 where "st3 = (fst a2)\<lparr>totalWeightedPlays :=
                      atomic_add_double (totalWeightedPlays (fst a2)) (snd a2)\<rparr>"
  have w3: "bucket_wf st3" using w2 by (simp add: st3_def bucket_wf_def)
  define st6 where "st6 = addCounters cfg (winningTeamData game) (losingTeamData game)
     (updateTeamSynergy cfg (updateTeamSynergy cfg st3 (winningTeamData game) True)
        (losingTeamData game) False)"
  have w6: "bucket_wf st6"
    unfolding st6_def by (intro addCounters_wf updateTeamSynergy_wf w3)
  have "processGame cfg game stats = qhash_store2 (game_map game) (game_mode game) st6 stats"
    by (simp add: processGame_def Let_def split_beta cur_def a1_def a2_def st3_def st6_def)
  then show ?thesis using qhash2_wf_store2 [OF assms w6] by simp
qed

lemma calculateStats_wf: "qhash2_wf bucket_wf (m_stats (calculateStats sc games))"
proof -
  have "qhash2_wf bucket_wf (fold (processGame (m_config sc)) games [])"
    by (rule fold_invariant [where Q = "\<lambda>_. True"]) (simp_all add: qhash2_wf_Nil processGame_wf)
  then show ?thesis by (simp add: calculateStats_def)
qed

text \<open>
  Claim C6. Take the table built by the aggregator from any sequence of games, export it with
  \<^verbatim>\<open>getStatsForCache\<close>, and import the result with \<^verbatim>\<open>setStatsFromCacheData\<close> into any
  calculator, whatever that calculator held before (the program imports into a newly
  constructed one). Then the receiving calculator finds, for every (map, mode), the same
  bucket as the exporting one: present or absent alike, with the same \<^verbatim>\<open>totalWeightedPlays\<close>
  and, for every brawler key, synergy-pair key and counter-pair key, the same entry with the
  same wins and plays. The other fields of the cache structure, which the caller fills in
  before saving, play no part, and the receiver keeps its own configuration. The same holds
  when the exported table itself came from an import.
\<close>

theorem cache_round_trip:
  "getMapModeStats
     (setStatsFromCacheData receiver (getStatsForCache (calculateStats sc games)))
     mapName mode
   = getMapModeStats (calculateStats sc games) mapName mode \<and>
   map_option totalWeightedPlays
     (getMapModeStats
        (setStatsFromCacheData receiver (getStatsForCache (calculateStats sc games)))
        mapName mode)
   = map_option totalWeightedPlays (getMapModeStats (calculateStats sc games) mapName mode) \<and>
   map_option (\<lambda>st. (map_of (brawlerStats st) key, map_of (synergyStats st) key,
                      map_of (counterStats st) key))
     (getMapModeStats
        (setStatsFromCacheData receiver (getStatsForCache (calculateStats sc games)))
        mapName mode)
   = map_option (\<lambda>st. (map_of (brawlerStats st) key, map_of (synergyStats st) key,
                        map_of (counterStats st) key))
       (getMapModeStats (calculateStats sc games) mapName mode) \<and>
   getMapModeStats
     (setStatsFromCacheData receiver
        ((getStatsForCache (calculateStats sc games))
           \<lparr>cache_allBrawlers := allBrawlers, cache_discoveredMapModes := discovered,
            cache_metadata_cacheCreationTime := created\<rparr>))
     mapName mode
   = getMapModeStats (calculateStats sc games) mapName mode \<and>
   m_config (setStatsFromCacheData receiver (getStatsForCache (calculateStats sc games)))
   = m_config receiver \<and>
   getMapModeStats
     (setStatsFromCacheData receiver (getStatsForCache (setStatsFromCacheData sc' cd)))
     mapName mode
   = getMapModeStats (setStatsFromCacheData sc' cd) mapName mode"
proof -
  have a: "getMapModeStats
     (setStatsFromCacheData receiver (getStatsForCache (calculateStats sc games)))
     mapName mode
   = getMapModeStats (calculateStats sc games) mapName mode"
    using calculateStats_wf by (rule round_trip_wf)
  have "setStatsFromCacheData receiver
        ((getStatsForCache (calculateStats sc games))
           \<lparr>cache_allBrawlers := allBrawlers, cache_discoveredMapModes := discovered,
            cache_metadata_cacheCreationTime := created\<rparr>)
      = setStatsFromCacheData receiver (getStatsForCache (calculateStats sc games))"
    by (rule setStatsFromCacheData_stats_only) simp
  with a have b: "getMapModeStats
     (setStatsFromCacheData receiver
        ((getStatsForCache (calculateStats sc games))
           \<lparr>cache_allBrawlers := allBrawlers, cache_discoveredMapModes := discovered,
            cache_metadata_cacheCreationTime := created\<rparr>))
     mapName mode
   = getMapModeStats (calculateStats sc games) mapName mode"
    by simp
  have c: "m_config (setStatsFromCacheData receiver (getStatsForCache (calculateStats sc games)))
   = m_config receiver"
    by (simp add: setStatsFromCacheData_def)
  have d: "getMapModeStats
     (setStatsFromCacheData receiver (getStatsForCache (setStatsFromCacheData sc' cd)))
     mapName mode
   = getMapModeStats (setStatsFromCacheData sc' cd) mapName mode"
    using import_wf by (rule round_trip_wf)
  from a b c d show ?thesis by simp
qed

text \<open>The table built from the sample match, exported and then imported into a newly
  constructed calculator, and into one that held another table before.\<close>

theorem cache_round_trip_witness:
  "map_option totalWeightedPlays
     (getMapModeStats
        (setStatsFromCacheData (newEmptyStatsCalculator defaultConfig)
           (getStatsForCache sampleStats))
        ''map'' ''mode'') = Some 9 \<and>
   map_option (\<lambda>st. map_of (brawlerStats st) ''x'')
     (getMapModeStats
        (setStatsFromCacheData (newEmptyStatsCalculator defaultConfig)
           (getStatsForCache sampleStats))
        ''map'' ''mode'') = Some (Some \<lparr>wins = 0, plays = 2\<rparr>) \<and>
   map_option (\<lambda>st. map_of (counterStats st) ''a|x'')
     (getMapModeStats
        (setStatsFromCacheData (newEmptyStatsCalculator defaultConfig)
           (getStatsForCache sampleStats))
        ''map'' ''mode'') = Some (Some \<lparr>wins = 1, plays = 1\<rparr>) \<and>
   getMapModeStats
     (setStatsFromCacheData (newEmptyStatsCalculator defaultConfig)
        (getStatsForCache sampleStats))
     ''map'' ''other'' = None \<and>
   getMapModeStats
     \<lparr>m_config = defaultConfig, m_stats = [(''old'', [(''mode'', newMapModeStats)])]\<rparr>
     ''old'' ''mode'' = Some newMapModeStats \<and>
   getMapModeStats
     (setStatsFromCacheData
        \<lparr>m_config = defaultConfig, m_stats = [(''old'', [(''mode'', newMapModeStats)])]\<rparr>
        (getStatsForCache sampleStats))
     ''old'' ''mode'' = None"
proof -
  have e: "sampleStats = calculateStats \<lparr>m_config = defaultConfig, m_stats = []\<rparr> [sampleGame]"
    by (simp add: sampleStats_def newStatsCalculator_def)
  have r: "getMapModeStats (setStatsFromCacheData receiver (getStatsForCache sampleStats)) mp md
             = getMapModeStats sampleStats mp md" for receiver mp md
    unfolding e
    using cache_round_trip [of receiver "\<lparr>m_config = defaultConfig, m_stats = []\<rparr>"
        "[sampleGame]" mp md]
    by blast
  show ?thesis
    unfolding r by (simp add: sampleStats_eval getMapModeStats_def)
qed

section \<open>Properties of the ranking\<close>

subsection \<open>Sorting with a comparator\<close>

lemma set_insert_by: "set (insert_by lt x xs) = insert x (set xs)"
  by (induction xs) auto

lemma length_insert_by: "length (insert_by lt x xs) = Suc (length xs)"
  by (induction xs) auto

lemma sorted_insert_by:
  assumes asym: "\<And>a b. lt a b \<Longrightarrow> \<not> lt b a"
    and ntrans: "\<And>a b c. \<not> lt a b \<Longrightarrow> \<not> lt b c \<Longrightarrow> \<not> lt a c"
    and "sorted_wrt (\<lambda>a b. \<not> lt b a) xs"
  shows "sorted_wrt (\<lambda>a b. \<not> lt b a) (insert_by lt x xs)"
  using assms(3)
proof (induction xs)
  case Nil
  then show ?case by simp
next
  case (Cons y ys)
  show ?case
  proof (cases "lt y x")
    case True
    from asym [OF True] have "\<not> lt x y" .
    with True Cons show ?thesis by (auto simp: set_insert_by)
  next
    case False
    have "\<not> lt z x" if "z \<in> set ys" for z
    proof -
      have "\<not> lt z y" using Cons.prems that by simp
      then show ?thesis using False by (rule ntrans)
    qed
    with False Cons.prems show ?thesis by simp
  qed
qed

lemma length_std_sort: "length (std_sort lt xs) = length xs"
  by (induction xs) (simp_all add: std_sort_def length_insert_by)

lemma set_std_sort: "set (std_sort lt xs) = set xs"
  by (induction xs) (simp_all add: std_sort_def set_insert_by)

lemma sorted_std_sort:
  assumes "\<And>a b. lt a b \<Longrightarrow> \<not> lt b a"
    and "\<And>a b c. \<not> lt a b \<Longrightarrow> \<not> lt b c \<Longrightarrow> \<not> lt a c"
  shows "sorted_wrt (\<lambda>a b. \<not> lt b a) (std_sort lt xs)"
proof (induction xs)
  case Nil
  then show ?case by (simp add: std_sort_def)
next
  case (Cons x xs)
  have "std_sort lt (x # xs) = insert_by lt x (std_sort lt xs)" by (simp add: std_sort_def)
  with sorted_insert_by [of lt, OF assms Cons] show ?case by simp
qed

lemma resultLess_asym: "resultLess a b \<Longrightarrow> \<not> resultLess b a"
  by (auto simp: resultLess_def split: if_splits)

lemma resultLess_ntrans:
  "\<not> resultLess a b \<Longrightarrow> \<not> resultLess b c \<Longrightarrow> \<not> resultLess a c"
  by (auto simp: resultLess_def split: if_splits)

lemma not_resultLess: "\<not> resultLess b a \<longleftrightarrow> rankedBefore a b"
  by (auto simp: resultLess_def rankedBefore_def)

lemma sorted_results: "sorted_wrt rankedBefore (std_sort resultLess xs)"
proof -
  have "sorted_wrt (\<lambda>a b. \<not> resultLess b a) (std_sort resultLess xs)"
    by (rule sorted_std_sort) (auto dest: resultLess_asym resultLess_ntrans)
  then show ?thesis by (simp add: not_resultLess)
qed

lemma sorted_wrt_take_rb: "sorted_wrt rankedBefore xs \<Longrightarrow> sorted_wrt rankedBefore (take n xs)"
  by (rule sorted_wrt_take)

subsection \<open>The ranking function\<close>

lemma getMctsResults_ranked:
  assumes "0 \<le> mctsResultCount cfg"
  shows "\<exists>rs. getMctsResults cfg rootNode = Inr rs \<and> sorted_wrt rankedBefore rs \<and>
              int (length rs) \<le> mctsResultCount cfg"
proof (cases rootNode)
  case None
  with assms show ?thesis by (simp add: getMctsResults_def)
next
  case (Some r)
  show ?thesis
  proof (cases "node_children r = []")
    case True
    with Some assms show ?thesis by (simp add: getMctsResults_def)
  next
    case False
    define results where "results = std_sort resultLess (collectResults (node_children r))"
    have s: "sorted_wrt rankedBefore results" unfolding results_def by (rule sorted_results)
    show ?thesis
    proof (cases "int (length results) > mctsResultCount cfg")
      case True
      with Some False assms
      have "getMctsResults cfg rootNode = Inr (take (nat (mctsResultCount cfg)) results)"
        by (simp add: getMctsResults_def Let_def results_def)
      moreover have "sorted_wrt rankedBefore (take (nat (mctsResultCount cfg)) results)"
        using s by (rule sorted_wrt_take_rb)
      moreover have "int (length (take (nat (mctsResultCount cfg)) results)) \<le> mctsResultCount cfg"
        using assms by simp
      ultimately show ?thesis by blast
    next
      case no: False
      with Some False
      have "getMctsResults cfg rootNode = Inr results"
        by (simp add: getMctsResults_def Let_def results_def)
      with s no show ?thesis by auto
    qed
  qed
qed

subsection \<open>The rankings the controller emits\<close>

lemma controllerLoop_signals:
  "controllerLoop cfg iv nx obs = Some (Inr sigs) \<Longrightarrow>
     (\<forall>rs. FinalResult rs \<notin> set sigs) \<and> MctsFinished \<notin> set sigs \<and>
     (\<forall>rs. IntermediateResult rs \<in> set sigs \<longrightarrow>
        (\<exists>ob \<in> set obs. getMctsResults cfg (Some (obs_root ob)) = Inr rs))"
proof (induction obs arbitrary: nx sigs)
  case Nil
  then show ?case by simp
next
  case (Cons ob obs)
  show ?case
  proof (cases "obs_stopRequested ob \<or> real_of_int (obs_elapsed ob) \<ge> mctsTimeLimit cfg * 1000")
    case True
    with Cons.prems show ?thesis by (auto simp: Let_def split: if_splits)
  next
    case run: False
    show ?thesis
    proof (cases "iv > 0 \<and> obs_elapsed ob \<ge> nx")
      case True
      with run Cons.prems obtain rs sigs' where
        g: "getMctsResults cfg (Some (obs_root ob)) = Inr rs"
        and l: "controllerLoop cfg iv (obs_elapsed ob + iv) obs = Some (Inr sigs')"
        and e: "sigs = StatusUpdate (Running (obs_iterations ob) (obs_elapsed ob))
                        # IntermediateResult rs # sigs'"
        by (auto simp: Let_def split: sum.splits option.splits)
      from Cons.IH [OF l] g show ?thesis unfolding e by auto
    next
      case False
      with run Cons.prems obtain sigs' where
        l: "controllerLoop cfg iv nx obs = Some (Inr sigs')"
        and e: "sigs = StatusUpdate (Running (obs_iterations ob) (obs_elapsed ob)) # sigs'"
        by (auto simp: Let_def split: sum.splits option.splits)
      from Cons.IH [OF l] show ?thesis unfolding e by auto
    qed
  qed
qed

lemma controllerLoop_returns:
  assumes "0 \<le> mctsResultCount cfg"
    and "\<exists>ob \<in> set obs. obs_stopRequested ob \<or> real_of_int (obs_elapsed ob) \<ge> mctsTimeLimit cfg * 1000"
  shows "\<exists>sigs. controllerLoop cfg iv nx obs = Some (Inr sigs)"
  using assms(2)
proof (induction obs arbitrary: nx)
  case Nil
  then show ?case by simp
next
  case (Cons ob obs)
  show ?case
  proof (cases "obs_stopRequested ob \<or> real_of_int (obs_elapsed ob) \<ge> mctsTimeLimit cfg * 1000")
    case True
    then show ?thesis by (auto simp: Let_def)
  next
    case run: False
    with Cons.prems have
      "\<exists>ob \<in> set obs. obs_stopRequested ob \<or> real_of_int (obs_elapsed ob) \<ge> mctsTimeLimit cfg * 1000"
      by auto
    note ih = Cons.IH [OF this]
    obtain rs where g: "getMctsResults cfg (Some (obs_root ob)) = Inr rs"
      using getMctsResults_ranked [OF assms(1)] by blast
    obtain s1 where l1: "controllerLoop cfg iv (obs_elapsed ob + iv) obs = Some (Inr s1)"
      using ih by blast
    obtain s2 where l2: "controllerLoop cfg iv nx obs = Some (Inr s2)"
      using ih by blast
    from run g l1 l2 show ?thesis by (simp add: Let_def)
  qed
qed

lemma runMctsControllerTask_signals:
  assumes "runMctsControllerTask cfg startElapsed obs final = Some (Inr sigs)"
  shows "\<exists>pre rs. sigs = pre @ [FinalResult rs, MctsFinished] \<and>
           getMctsResults cfg (Some (obs_root final)) = Inr rs \<and>
           (\<forall>rs'. FinalResult rs' \<notin> set pre) \<and>
           (\<forall>rs'. IntermediateResult rs' \<in> set pre \<longrightarrow>
              (\<exists>ob \<in> set obs. getMctsResults cfg (Some (obs_root ob)) = Inr rs'))"
proof -
  define iv :: int where "iv = (if mctsUpdateIntervalIters cfg > 0 then 1000 else 0)"
  define nx where "nx = (if iv > 0 then startElapsed + iv else - 1)"
  define early where "early = (if obs_stopRequested final
                               \<and> real_of_int (obs_elapsed final) < mctsTimeLimit cfg * 1000
                          then [StatusUpdate StoppedEarly] else [])"
  have u: "runMctsControllerTask cfg startElapsed obs final =
      (case controllerLoop cfg iv nx obs of
         None \<Rightarrow> None
       | Some (Inl e) \<Rightarrow> Some (Inl e)
       | Some (Inr sigs) \<Rightarrow>
           (case getMctsResults cfg (Some (obs_root final)) of
              Inl e \<Rightarrow> Some (Inl e)
            | Inr finalResults \<Rightarrow>
                Some (Inr (sigs @ early @ [FinalResult finalResults, MctsFinished]))))"
    unfolding runMctsControllerTask_def Let_def iv_def nx_def early_def by (rule refl)
  from assms [unfolded u] obtain s0 rs where
    l: "controllerLoop cfg iv nx obs = Some (Inr s0)"
    and g: "getMctsResults cfg (Some (obs_root final)) = Inr rs"
    and e: "sigs = s0 @ early @ [FinalResult rs, MctsFinished]"
    by (auto split: option.splits sum.splits)
  have "(\<forall>rs'. FinalResult rs' \<notin> set (s0 @ early)) \<and>
        (\<forall>rs'. IntermediateResult rs' \<in> set (s0 @ early) \<longrightarrow>
              (\<exists>ob \<in> set obs. getMctsResults cfg (Some (obs_root ob)) = Inr rs'))"
    using controllerLoop_signals [OF l] by (auto simp: early_def)
  with g e show ?thesis by (intro exI [of _ "s0 @ early"] exI [of _ rs]) simp
qed

lemma runMctsControllerTask_returns:
  assumes "0 \<le> mctsResultCount cfg"
    and "\<exists>ob \<in> set obs. obs_stopRequested ob \<or> real_of_int (obs_elapsed ob) \<ge> mctsTimeLimit cfg * 1000"
  shows "\<exists>sigs. runMctsControllerTask cfg startElapsed obs final = Some (Inr sigs)"
proof -
  obtain rs where g: "getMctsResults cfg (Some (obs_root final)) = Inr rs"
    using getMctsResults_ranked [OF assms(1)] by blast
  obtain s0 where "controllerLoop cfg (if mctsUpdateIntervalIters cfg > 0 then 1000 else 0)
      (if (if mctsUpdateIntervalIters cfg > 0 then 1000 else 0) > (0::int)
       then startElapsed + (if mctsUpdateIntervalIters cfg > 0 then 1000 else 0) else - 1) obs
      = Some (Inr s0)"
    using controllerLoop_returns [OF assms] by blast
  with g show ?thesis by (simp add: runMctsControllerTask_def Let_def)
qed

text \<open>
  Claim C8, as stated, fails: it bounds the length of the ranking by the configured result
  count for every root node, but the count is read from the settings without validation,
  and for a null or childless root \<^verbatim>\<open>getMctsResults\<close> returns the empty ranking before it
  looks at the count. With a configured count of -1 the ranking has 0 entries, which is
  more than -1.
\<close>

theorem getMctsResults_negative_count_counterexample:
  "getMctsResults (defaultConfig\<lparr>cfg_MctsResultCount := - 1\<rparr>) None = Inr [] \<and>
   mctsResultCount (defaultConfig\<lparr>cfg_MctsResultCount := - 1\<rparr>)
     < int (length ([] :: MCTSResult list))"
  by (simp add: getMctsResults_def mctsResultCount_def)

text \<open>
  Claim C8, amended. For every root node (a null root included) and a configured result
  count that is not negative, \<^verbatim>\<open>getMctsResults\<close> returns a ranking sorted by visit count
  descending, ties broken by win rate descending, with at most the configured number of
  entries. Every run of the controller task that comes to its end emits exactly one final
  ranking, as its last signal before the completion signal, and that ranking is the value of
  \<^verbatim>\<open>getMctsResults\<close> on the tree as it is then; every intermediate ranking it emitted is the
  value of the same function on the tree as it was at that poll. The run does come to its
  end once a poll sees the stop flag or the time limit.
\<close>

theorem mcts_ranking:
  assumes "0 \<le> mctsResultCount cfg"
  shows "(\<exists>rs. getMctsResults cfg rootNode = Inr rs \<and> sorted_wrt rankedBefore rs \<and>
               int (length rs) \<le> mctsResultCount cfg) \<and>
         (\<forall>startElapsed obs final sigs.
            runMctsControllerTask cfg startElapsed obs final = Some (Inr sigs) \<longrightarrow>
              (\<exists>pre rs. sigs = pre @ [FinalResult rs, MctsFinished] \<and>
                 getMctsResults cfg (Some (obs_root final)) = Inr rs \<and>
                 (\<forall>rs'. FinalResult rs' \<notin> set pre) \<and>
                 (\<forall>rs'. IntermediateResult rs' \<in> set pre \<longrightarrow>
                    (\<exists>ob \<in> set obs. getMctsResults cfg (Some (obs_root ob)) = Inr rs')))) \<and>
         (\<forall>startElapsed obs final.
            (\<exists>ob \<in> set obs. obs_stopRequested ob
                 \<or> real_of_int (obs_elapsed ob) \<ge> mctsTimeLimit cfg * 1000) \<longrightarrow>
              (\<exists>sigs. runMctsControllerTask cfg startElapsed obs final = Some (Inr sigs)))"
  using getMctsResults_ranked [OF assms, of rootNode] runMctsControllerTask_signals [of cfg]
    runMctsControllerTask_returns [OF assms]
  by blast

theorem mcts_ranking_witness:
  "0 \<le> mctsResultCount (defaultConfig\<lparr>cfg_MctsResultCount := 2\<rparr>) \<and>
   getMctsResults (defaultConfig\<lparr>cfg_MctsResultCount := 2\<rparr>) (Some sampleRoot)
     = Inr [\<lparr>move = ''b'', visits = 8, winRate = 1 / 2\<rparr>,
            \<lparr>move = ''d'', visits = 5, winRate = 3 / 5\<rparr>] \<and>
   sorted_wrt rankedBefore
     [\<lparr>move = ''b'', visits = 8, winRate = 1 / 2\<rparr>, \<lparr>move = ''d'', visits = 5, winRate = 3 / 5\<rparr>] \<and>
   runMctsControllerTask (defaultConfig\<lparr>cfg_MctsResultCount := 2\<rparr>) 0
     [\<lparr>obs_stopRequested = False, obs_elapsed = 1200, obs_iterations = 18, obs_root = sampleRoot\<rparr>,
      \<lparr>obs_stopRequested = True, obs_elapsed = 1400, obs_iterations = 20, obs_root = sampleRoot\<rparr>]
     \<lparr>obs_stopRequested = True, obs_elapsed = 1400, obs_iterations = 20, obs_root = sampleRoot\<rparr>
     = Some (Inr [StatusUpdate (Running 18 1200),
                  IntermediateResult [\<lparr>move = ''b'', visits = 8, winRate = 1 / 2\<rparr>,
                                      \<lparr>move = ''d'', visits = 5, winRate = 3 / 5\<rparr>],
                  StatusUpdate StoppedEarly,
                  FinalResult [\<lparr>move = ''b'', visits = 8, winRate = 1 / 2\<rparr>,
                               \<lparr>move = ''d'', visits = 5, winRate = 3 / 5\<rparr>],
                  MctsFinished])"
proof -
  define cfg where "cfg = defaultConfig\<lparr>cfg_MctsResultCount := 2\<rparr>"
  define ranking where "ranking = [\<lparr>move = ''b'', visits = 8, winRate = 1 / 2\<rparr>,
            \<lparr>move = ''d'', visits = 5, winRate = 3 / 5 :: real\<rparr>]"
  have h: "0 \<le> mctsResultCount cfg" by (simp add: cfg_def mctsResultCount_def)
  have c: "collectResults (node_children sampleRoot)
      = [\<lparr>move = ''a'', visits = 5, winRate = 2 / 5\<rparr>, \<lparr>move = ''b'', visits = 8, winRate = 1 / 2\<rparr>,
         \<lparr>move = ''d'', visits = 5, winRate = 3 / 5\<rparr>]"
    by (simp add: collectResults_def sampleRoot_def)
  have st: "std_sort resultLess (collectResults (node_children sampleRoot))
      = [\<lparr>move = ''b'', visits = 8, winRate = 1 / 2\<rparr>, \<lparr>move = ''d'', visits = 5, winRate = 3 / 5\<rparr>,
         \<lparr>move = ''a'', visits = 5, winRate = 2 / 5\<rparr>]"
    by (simp add: c std_sort_def resultLess_def)
  have ne: "node_children sampleRoot \<noteq> []" by (simp add: sampleRoot_def)
  have v: "getMctsResults cfg (Some sampleRoot) = Inr ranking"
    by (simp add: getMctsResults_def st ne cfg_def mctsResultCount_def ranking_def)
  note t = mcts_ranking [OF h]
  from t [of "Some sampleRoot"] v have s: "sorted_wrt rankedBefore ranking" by auto
  have cf: "mctsUpdateIntervalIters cfg = 250" "mctsTimeLimit cfg = 7"
    by (simp_all add: cfg_def defaultConfig_def mctsUpdateIntervalIters_def mctsTimeLimit_def)
  have r: "runMctsControllerTask cfg 0
     [\<lparr>obs_stopRequested = False, obs_elapsed = 1200, obs_iterations = 18, obs_root = sampleRoot\<rparr>,
      \<lparr>obs_stopRequested = True, obs_elapsed = 1400, obs_iterations = 20, obs_root = sampleRoot\<rparr>]
     \<lparr>obs_stopRequested = True, obs_elapsed = 1400, obs_iterations = 20, obs_root = sampleRoot\<rparr>
     = Some (Inr [StatusUpdate (Running 18 1200), IntermediateResult ranking,
                  StatusUpdate StoppedEarly, FinalResult ranking, MctsFinished])"
    by (simp add: runMctsControllerTask_def cf v)
  from h v s r show ?thesis unfolding cfg_def ranking_def by blast
qed

end
